theory Spec2Isabelle
  imports Complex_Main "HOL-Library.Word" "HOL-Library.Signed_Division" "HOL-Library.Multiset"
begin

unbundle bit_operations_syntax

section \<open>Tokens (token.c, scanner.c)\<close>

text \<open>
  The token kinds, in the order of the enumeration: \<^verbatim>\<open>token_names\<close> of token.c lists
  one name per enumerator, in enumeration order, and the macros \<^verbatim>\<open>IS_ADDOP\<close>,
  \<^verbatim>\<open>IS_MULOP\<close> and \<^verbatim>\<open>IS_RELOP\<close> of simplc.c compare enumerators by that order.
\<close>

datatype TokenType =
    TOK_EOF | TOK_ID | TOK_NUM | TOK_STR
  | TOK_ARRAY | TOK_BEGIN | TOK_BOOLEAN | TOK_CHILL | TOK_DEFINE | TOK_DO
  | TOK_ELSE | TOK_ELSIF | TOK_END | TOK_EXIT | TOK_FALSE | TOK_IF
  | TOK_INTEGER | TOK_NOT | TOK_PROGRAM | TOK_READ | TOK_THEN | TOK_TRUE
  | TOK_WHILE | TOK_WRITE
  | TOK_EQ | TOK_GE | TOK_GT | TOK_LE | TOK_LT | TOK_NE
  | TOK_MINUS | TOK_OR | TOK_PLUS
  | TOK_AND | TOK_DIV | TOK_MUL | TOK_MOD
  | TOK_AMPERSAND | TOK_LBRACK | TOK_RBRACK | TOK_COMMA | TOK_GETS
  | TOK_LPAR | TOK_RPAR | TOK_SEMICOLON | TOK_TO

text \<open>The value of each enumerator: its index in \<^verbatim>\<open>token_names\<close>.\<close>

fun tok_ord :: "TokenType \<Rightarrow> nat" where
  "tok_ord TOK_EOF = 0" | "tok_ord TOK_ID = 1" | "tok_ord TOK_NUM = 2"
| "tok_ord TOK_STR = 3" | "tok_ord TOK_ARRAY = 4" | "tok_ord TOK_BEGIN = 5"
| "tok_ord TOK_BOOLEAN = 6" | "tok_ord TOK_CHILL = 7" | "tok_ord TOK_DEFINE = 8"
| "tok_ord TOK_DO = 9" | "tok_ord TOK_ELSE = 10" | "tok_ord TOK_ELSIF = 11"
| "tok_ord TOK_END = 12" | "tok_ord TOK_EXIT = 13" | "tok_ord TOK_FALSE = 14"
| "tok_ord TOK_IF = 15" | "tok_ord TOK_INTEGER = 16" | "tok_ord TOK_NOT = 17"
| "tok_ord TOK_PROGRAM = 18" | "tok_ord TOK_READ = 19" | "tok_ord TOK_THEN = 20"
| "tok_ord TOK_TRUE = 21" | "tok_ord TOK_WHILE = 22" | "tok_ord TOK_WRITE = 23"
| "tok_ord TOK_EQ = 24" | "tok_ord TOK_GE = 25" | "tok_ord TOK_GT = 26"
| "tok_ord TOK_LE = 27" | "tok_ord TOK_LT = 28" | "tok_ord TOK_NE = 29"
| "tok_ord TOK_MINUS = 30" | "tok_ord TOK_OR = 31" | "tok_ord TOK_PLUS = 32"
| "tok_ord TOK_AND = 33" | "tok_ord TOK_DIV = 34" | "tok_ord TOK_MUL = 35"
| "tok_ord TOK_MOD = 36" | "tok_ord TOK_AMPERSAND = 37" | "tok_ord TOK_LBRACK = 38"
| "tok_ord TOK_RBRACK = 39" | "tok_ord TOK_COMMA = 40" | "tok_ord TOK_GETS = 41"
| "tok_ord TOK_LPAR = 42" | "tok_ord TOK_RPAR = 43" | "tok_ord TOK_SEMICOLON = 44"
| "tok_ord TOK_TO = 45"

text \<open>
  A token: its kind and its payload (the value of a number, the lexeme of an
  identifier, the contents of a string literal).  The scanner writes only the fields of
  the kind it recognises.
\<close>

record Token =
  ttype :: TokenType
  tvalue :: int
  tlexeme :: string
  tstring :: string

text \<open>
  Every fatal outcome of the compiler is a value of this type.  The lexical errors are
  the messages of \<^verbatim>\<open>leprintf\<close> in scanner.c; the parser's errors are the codes handed
  to \<^verbatim>\<open>abort_c\<close> with their arguments, and the type error of \<^verbatim>\<open>check_types\<close>
  (expected type first, found type second).  Some outcomes are undefined behaviour
  of the C program, made visible: a read outside an array, a signed overflow, the use of
  an uninitialised, null or freed pointer.  \<open>OUT_OF_FUEL\<close> is the outcome of a run of
  the parser that is cut off before it returns.  The
  source position that accompanies a diagnostic is not modelled.
\<close>

type_synonym ValType = "32 word"

datatype error =
    NUMBER_TOO_LARGE
  | IDENTIFIER_TOO_LONG
  | INDEX_OUT_OF_BOUNDS int
  | SIGNED_OVERFLOW
  | UNINITIALISED_READ
  | NULL_DEREFERENCE
  | USE_AFTER_FREE
  | OUT_OF_FUEL
  | INCOMPATIBLE_TYPES ValType ValType
  | ERR_ARGUMENT_LIST_OR_VARIABLE_ASSIGNMENT_EXPECTED TokenType
  | ERR_ARRAY_ALLOCATION_OR_EXPRESSION_EXPECTED TokenType
  | ERR_EXIT_EXPRESSION_NOT_ALLOWED_FOR_PROCEDURE
  | ERR_EXPECT TokenType TokenType
  | ERR_EXPRESSION_OR_STRING_EXPECTED TokenType
  | ERR_FACTOR_EXPECTED TokenType
  | ERR_ILLEGAL_ARRAY_OPERATION string
  | ERR_MISSING_EXIT_EXPRESSION_FOR_FUNCTION
  | ERR_MISSING_FUNCTION_ARGUMENT_LIST string
  | ERR_MULTIPLE_DEFINITION string
  | ERR_NOT_A_FUNCTION string
  | ERR_NOT_A_PROCEDURE string
  | ERR_NOT_A_VARIABLE string
  | ERR_NOT_AN_ARRAY string
  | ERR_SCALAR_VARIABLE_EXPECTED string
  | ERR_STATEMENT_EXPECTED TokenType
  | ERR_TAKES_NO_ARGUMENTS string string
  | ERR_TOO_FEW_ARGUMENTS string
  | ERR_TOO_MANY_ARGUMENTS string
  | ERR_TYPE_EXPECTED TokenType
  | ERR_UNKNOWN_IDENTIFIER string

section \<open>The scanner (scanner.c)\<close>

text \<open>
  The scanner reads the source one character ahead: \<^verbatim>\<open>ch\<close> is the next source
  character, or \<^verbatim>\<open>EOF\<close>.  The unread input is a list of characters whose head is
  \<^verbatim>\<open>ch\<close>; the empty list is \<^verbatim>\<open>ch == EOF\<close>, and \<^verbatim>\<open>next_char\<close> drops the head.
  The character classes are those of the C locale.
\<close>

definition isdigit :: "char \<Rightarrow> bool" where
  "isdigit c \<longleftrightarrow> 48 \<le> (of_char c :: nat) \<and> (of_char c :: nat) \<le> 57"

definition isalpha :: "char \<Rightarrow> bool" where
  "isalpha c \<longleftrightarrow> (65 \<le> (of_char c :: nat) \<and> (of_char c :: nat) \<le> 90)
     \<or> (97 \<le> (of_char c :: nat) \<and> (of_char c :: nat) \<le> 122)"

definition INT_MAX :: int where
  "INT_MAX = 2147483647"

definition INT_MIN :: int where
  "INT_MIN = - 2147483648"

text \<open>A value of type \<^verbatim>\<open>int\<close> is representable when it lies in the 32-bit signed range.\<close>

definition in_int_range :: "int \<Rightarrow> bool" where
  "in_int_range x \<longleftrightarrow> INT_MIN \<le> x \<and> x \<le> INT_MAX"

text \<open>
  The loop of \<^verbatim>\<open>process_number\<close>:
  \<^verbatim>\<open>for (num = 0; isdigit(ch); next_char()) {
      digit = ch - '0';
      if (num > (INT_MAX - digit) / 10) leprintf("number too large");
      else num = 10 * num + digit; }\<close>
  The arithmetic is that of C on \<^verbatim>\<open>int\<close>: division truncates, and a product or sum
  outside the range of \<^verbatim>\<open>int\<close> is the outcome \<open>SIGNED_OVERFLOW\<close>.
\<close>

fun number_loop :: "int \<Rightarrow> string \<Rightarrow> error + (int \<times> string)" where
  "number_loop num [] = Inr (num, [])"
| "number_loop num (c # cs) =
     (if isdigit c then
        (let digit = int (of_char c) - int (of_char (CHR ''0'')) in
         if num > (INT_MAX - digit) sdiv 10 then Inl NUMBER_TOO_LARGE
         else if \<not> in_int_range (10 * num) \<or> \<not> in_int_range (10 * num + digit)
           then Inl SIGNED_OVERFLOW
         else number_loop (10 * num + digit) cs)
      else Inr (num, c # cs))"

definition process_number :: "Token \<Rightarrow> string \<Rightarrow> error + (Token \<times> string)" where
  "process_number tok inp =
     (case number_loop 0 inp of
        Inl e \<Rightarrow> Inl e
      | Inr (num, rest) \<Rightarrow> Inr (tok\<lparr>tvalue := num, ttype := TOK_NUM\<rparr>, rest))"

text \<open>The decimal value of a digit string, most significant digit first.\<close>

definition digit_of :: "char \<Rightarrow> int" where
  "digit_of c = int (of_char c) - 48"

definition decimal_from :: "int \<Rightarrow> string \<Rightarrow> int" where
  "decimal_from n ds = foldl (\<lambda>acc c. 10 * acc + digit_of c) n ds"

definition decimal_value :: "string \<Rightarrow> int" where
  "decimal_value ds = decimal_from 0 ds"

text \<open>
  The reserved words of scanner.c, in the order of the array \<^verbatim>\<open>reserved\<close>.
\<close>

definition reserved :: "(string \<times> TokenType) list" where
  "reserved =
    [(''and'', TOK_AND), (''array'', TOK_ARRAY), (''begin'', TOK_BEGIN),
     (''boolean'', TOK_BOOLEAN), (''chill'', TOK_CHILL), (''define'', TOK_DEFINE),
     (''do'', TOK_DO), (''else'', TOK_ELSE), (''elsif'', TOK_ELSIF), (''end'', TOK_END),
     (''exit'', TOK_EXIT), (''false'', TOK_FALSE), (''if'', TOK_IF),
     (''integer'', TOK_INTEGER), (''mod'', TOK_MOD), (''not'', TOK_NOT), (''or'', TOK_OR),
     (''program'', TOK_PROGRAM), (''read'', TOK_READ), (''then'', TOK_THEN),
     (''true'', TOK_TRUE), (''while'', TOK_WHILE), (''write'', TOK_WRITE)]"

text \<open>\<^verbatim>\<open>sizeof(reserved) / sizeof(ReservedWord)\<close>: the number of entries of the array.\<close>

definition NUM_RESERVED_WORDS :: int where
  "NUM_RESERVED_WORDS = int (length reserved)"

text \<open>
  \<^verbatim>\<open>strcmp\<close> of the C library on strings without a NUL byte: the sign of the comparison
  of the first bytes that differ, a proper prefix being smaller.  The C standard fixes
  the sign of the result only; the model returns \<open>-1\<close>, \<open>0\<close> or \<open>1\<close>.
\<close>

fun strcmp :: "string \<Rightarrow> string \<Rightarrow> int" where
  "strcmp [] [] = 0"
| "strcmp [] (y # ys) = - 1"
| "strcmp (x # xs) [] = 1"
| "strcmp (x # xs) (y # ys) =
     (if x = y then strcmp xs ys
      else if (of_char x :: nat) < of_char y then - 1 else 1)"

text \<open>
  The first loop of \<^verbatim>\<open>process_word\<close> copies the characters of the word into the
  buffer \<^verbatim>\<open>lexeme\<close>; the index \<^verbatim>\<open>i\<close> is the length of what has been copied.
  \<^verbatim>\<open>MAX_ID_LENGTH\<close> is a constant of token.h, which is not among the sources: it is a
  parameter here.
\<close>

fun word_loop :: "nat \<Rightarrow> string \<Rightarrow> string \<Rightarrow> error + (string \<times> string)" where
  "word_loop max_id_length lexeme [] = Inr (lexeme, [])"
| "word_loop max_id_length lexeme (c # cs) =
     (if isdigit c \<or> isalpha c \<or> c = CHR ''_'' then
        (if length lexeme = max_id_length then Inl IDENTIFIER_TOO_LONG
         else word_loop max_id_length (lexeme @ [c]) cs)
      else Inr (lexeme, c # cs))"

text \<open>
  The binary search of \<^verbatim>\<open>process_word\<close>:
  \<^verbatim>\<open>while (low <= high) {
      cmp = strcmp(lexeme, reserved[mid].word);
      if (cmp > 0) low = mid + 1;
      else if (cmp < 0) high = mid - 1;
      else break;
      mid = (low + high) / 2; }\<close>
  on the loop variables \<^verbatim>\<open>low\<close>, \<^verbatim>\<open>mid\<close> and \<^verbatim>\<open>high\<close>, which it returns.  The read
  \<^verbatim>\<open>reserved[mid]\<close> is checked against the bounds of the array: outside them the
  outcome is \<open>INDEX_OUT_OF_BOUNDS mid\<close>.  Division is that of C and truncates.
\<close>

function search_loop :: "string \<Rightarrow> int \<Rightarrow> int \<Rightarrow> int \<Rightarrow> error + (int \<times> int \<times> int)" where
  "search_loop lexeme low mid high =
     (if low \<le> high then
        (if mid < 0 \<or> NUM_RESERVED_WORDS \<le> mid then Inl (INDEX_OUT_OF_BOUNDS mid)
         else
           (let cmp = strcmp lexeme (fst (reserved ! nat mid)) in
            if cmp > 0 then search_loop lexeme (mid + 1) ((mid + 1 + high) sdiv 2) high
            else if cmp < 0 then search_loop lexeme low ((low + (mid - 1)) sdiv 2) (mid - 1)
            else Inr (low, mid, high)))
      else Inr (low, mid, high))"
  by pat_completeness auto
termination
proof (relation "measures [\<lambda>(lexeme, low, mid, high). if mid = (low + high) sdiv 2 then 0 else 1,
                           \<lambda>(lexeme, low, mid, high). nat (high - low + 1)]")
  show "wf (measures [\<lambda>(lexeme, low, mid, high). if mid = (low + high) sdiv 2 then 0 else 1,
                           \<lambda>(lexeme, low, mid, high). nat (high - low + 1)])" by simp
next
  fix lexeme :: string and low mid high cmp :: int
  assume a: "low \<le> high" "\<not> (mid < 0 \<or> NUM_RESERVED_WORDS \<le> mid)"
  have mid_bounds: "low \<le> (low + high) sdiv 2 \<and> (low + high) sdiv 2 \<le> high"
    using a(1) by (auto simp: signed_divide_int_def sgn_if abs_if)
  show "((lexeme, mid + 1, (mid + 1 + high) sdiv 2, high), lexeme, low, mid, high)
      \<in> measures [\<lambda>(lexeme, low, mid, high). if mid = (low + high) sdiv 2 then 0 else 1,
                           \<lambda>(lexeme, low, mid, high). nat (high - low + 1)]"
    using a mid_bounds by auto
  show "((lexeme, low, (low + (mid - 1)) sdiv 2, mid - 1), lexeme, low, mid, high)
      \<in> measures [\<lambda>(lexeme, low, mid, high). if mid = (low + high) sdiv 2 then 0 else 1,
                           \<lambda>(lexeme, low, mid, high). nat (high - low + 1)]"
    using a mid_bounds by auto
qed

declare search_loop.simps [simp del]

text \<open>
  \<^verbatim>\<open>process_word\<close>: the word is read, the search starts from \<^verbatim>\<open>low = 0\<close>,
  \<^verbatim>\<open>high = NUM_RESERVED_WORDS\<close> and \<^verbatim>\<open>mid = (low + high) / 2\<close>, and the token is an
  identifier when the search ends with \<^verbatim>\<open>low > high\<close>, the reserved word at
  \<^verbatim>\<open>mid\<close> otherwise.
\<close>

definition process_word :: "nat \<Rightarrow> Token \<Rightarrow> string \<Rightarrow> error + (Token \<times> string)" where
  "process_word max_id_length tok inp =
     (case word_loop max_id_length [] inp of
        Inl e \<Rightarrow> Inl e
      | Inr (lexeme, rest) \<Rightarrow>
          (let low = 0; high = NUM_RESERVED_WORDS; mid = (low + high) sdiv 2 in
           case search_loop lexeme low mid high of
             Inl e \<Rightarrow> Inl e
           | Inr (low, mid, high) \<Rightarrow>
               if low > high then Inr (tok\<lparr>ttype := TOK_ID, tlexeme := lexeme\<rparr>, rest)
               else if mid < 0 \<or> NUM_RESERVED_WORDS \<le> mid then Inl (INDEX_OUT_OF_BOUNDS mid)
               else Inr (tok\<lparr>ttype := snd (reserved ! nat mid)\<rparr>, rest)))"

section \<open>Value types (valtypes.h)\<close>

text \<open>
  \<^verbatim>\<open>ValType\<close> is an enumeration used as a set of bits; its values are unsigned 32-bit
  integers.
\<close>

definition TYPE_NONE :: ValType where "TYPE_NONE = 0"
definition TYPE_ARRAY :: ValType where "TYPE_ARRAY = 1"
definition TYPE_BOOLEAN :: ValType where "TYPE_BOOLEAN = 2"
definition TYPE_INTEGER :: ValType where "TYPE_INTEGER = 4"
definition TYPE_CALLABLE :: ValType where "TYPE_CALLABLE = 8"

definition IS_ARRAY_TYPE :: "ValType \<Rightarrow> bool" where
  "IS_ARRAY_TYPE t \<longleftrightarrow> t AND TYPE_ARRAY \<noteq> 0"

definition IS_BOOLEAN_TYPE :: "ValType \<Rightarrow> bool" where
  "IS_BOOLEAN_TYPE t \<longleftrightarrow> t AND TYPE_BOOLEAN \<noteq> 0"

definition IS_CALLABLE_TYPE :: "ValType \<Rightarrow> bool" where
  "IS_CALLABLE_TYPE t \<longleftrightarrow> t AND TYPE_CALLABLE \<noteq> 0"

definition IS_INTEGER_TYPE :: "ValType \<Rightarrow> bool" where
  "IS_INTEGER_TYPE t \<longleftrightarrow> t AND TYPE_INTEGER \<noteq> 0"

definition IS_ARRAY :: "ValType \<Rightarrow> bool" where
  "IS_ARRAY t \<longleftrightarrow> IS_ARRAY_TYPE t \<and> \<not> IS_CALLABLE_TYPE t"

definition IS_PROCEDURE :: "ValType \<Rightarrow> bool" where
  "IS_PROCEDURE t \<longleftrightarrow> \<not> (t XOR TYPE_CALLABLE \<noteq> 0)"

definition IS_FUNCTION :: "ValType \<Rightarrow> bool" where
  "IS_FUNCTION t \<longleftrightarrow> IS_CALLABLE_TYPE t \<and> \<not> IS_PROCEDURE t"

definition IS_VARIABLE :: "ValType \<Rightarrow> bool" where
  "IS_VARIABLE t \<longleftrightarrow> 2 \<le> t \<and> t \<le> 5"

definition SET_RETURN_TYPE :: "ValType \<Rightarrow> ValType" where
  "SET_RETURN_TYPE t = t AND NOT TYPE_CALLABLE"

text \<open>
  The properties of an identifier (\<^verbatim>\<open>IDprop\<close> of symboltable.h, as \<^verbatim>\<open>make_idprop\<close>
  of simplc.c fills it): its type, its offset in the local variable array, and for a
  subroutine the number and the types of its parameters.
\<close>

record IDprop =
  type :: ValType
  offset :: "32 word"
  nparams :: nat
  params :: "ValType list"

section \<open>The hash table (hashtable.c)\<close>

text \<open>
  A bucket of the table is a chain of entries, each a key and a value; the chain is the
  list of its entries from the head.  Keys are the strings the key pointers point to, and
  values are identifier properties: the table is used for the symbol table only, with
  \<^verbatim>\<open>shift_hash\<close> as its hash function and \<^verbatim>\<open>key_strcmp\<close> as its comparison, and the
  model calls these two directly.  The sizes and counts are unsigned machine integers;
  they are natural numbers here.  Allocation does not fail.
\<close>

record HashTab =
  ht_table :: "(string \<times> IDprop) list list"
  ht_size :: nat
  ht_num_entries :: nat
  ht_max_loadfactor :: rat
  ht_idx :: nat

datatype ht_status =
  EXIT_SUCCESS | HASH_TABLE_KEY_VALUE_PAIR_EXISTS | HASH_TABLE_NO_SPACE_FOR_NODE

definition delta :: "nat list" where
  "delta = [0, 0, 1, 1, 3, 1, 3, 1, 5, 3, 3, 9, 3, 1, 3, 19, 15,
            1, 5, 1, 3, 9, 3, 15, 3, 39, 5, 39, 57, 3, 35, 1]"

definition INITIAL_DELTA_INDEX :: nat where
  "INITIAL_DELTA_INDEX = 4"

text \<open>A read of \<^verbatim>\<open>delta[i]\<close>, checked against the bounds of the array.\<close>

definition delta_at :: "nat \<Rightarrow> error + nat" where
  "delta_at i = (if i < length delta then Inr (delta ! i) else Inl (INDEX_OUT_OF_BOUNDS (int i)))"

text \<open>
  \<^verbatim>\<open>shift_hash\<close> of symboltable.c, on 32-bit unsigned integers:
  \<^verbatim>\<open>hash = (hash << 5) | (hash >> 27); hash += keystr[i];\<close> for each character, then
  \<^verbatim>\<open>hash % size\<close>.  A \<^verbatim>\<open>char\<close> is signed and is sign-extended when added.
\<close>

definition char_word :: "char \<Rightarrow> 32 word" where
  "char_word c = (if (of_char c :: nat) < 128 then word_of_nat (of_char c)
                  else word_of_nat (of_char c) - 256)"

fun hash_loop :: "32 word \<Rightarrow> string \<Rightarrow> 32 word" where
  "hash_loop hash [] = hash"
| "hash_loop hash (c # cs) = hash_loop ((push_bit 5 hash OR drop_bit 27 hash) + char_word c) cs"

definition shift_hash :: "string \<Rightarrow> nat \<Rightarrow> nat" where
  "shift_hash key tsize = unat (hash_loop 0 key) mod tsize"

definition key_strcmp :: "string \<Rightarrow> string \<Rightarrow> int" where
  "key_strcmp v1 v2 = strcmp v1 v2"

definition ht_init :: "rat \<Rightarrow> HashTab" where
  "ht_init loadfactor =
     (let idx = INITIAL_DELTA_INDEX;
          i = 2 ^ idx - delta ! idx
      in \<lparr>ht_table = replicate i [], ht_size = i, ht_num_entries = 0,
          ht_max_loadfactor = loadfactor, ht_idx = idx\<rparr>)"

text \<open>The walk along a chain in \<^verbatim>\<open>ht_search\<close>: the value of the first entry with the key.\<close>

fun chain_search :: "(string \<times> IDprop) list \<Rightarrow> string \<Rightarrow> IDprop option" where
  "chain_search [] key = None"
| "chain_search (p # q) key =
     (if key_strcmp key (fst p) = 0 then Some (snd p) else chain_search q key)"

definition ht_search :: "HashTab \<Rightarrow> string \<Rightarrow> IDprop option" where
  "ht_search ht key =
     (let k = shift_hash key (ht_size ht) in chain_search (ht_table ht ! k) key)"

text \<open>\<^verbatim>\<open>getsize\<close>: \<^verbatim>\<open>i = size + delta[idx]; return i * 2 - delta[idx + 1];\<close>\<close>

definition getsize :: "HashTab \<Rightarrow> error + int" where
  "getsize ht =
     (case delta_at (ht_idx ht) of
        Inl e \<Rightarrow> Inl e
      | Inr d \<Rightarrow>
          (case delta_at (ht_idx ht + 1) of
             Inl e \<Rightarrow> Inl e
           | Inr d' \<Rightarrow> Inr (int (ht_size ht + d) * 2 - int d')))"

text \<open>
  \<^verbatim>\<open>rehash\<close> moves every entry of the old table, bucket by bucket and along each chain
  from its head, to the head of its chain in the new table.
\<close>

fun rehash_chain :: "(string \<times> IDprop) list \<Rightarrow> nat \<Rightarrow> (string \<times> IDprop) list list
    \<Rightarrow> (string \<times> IDprop) list list" where
  "rehash_chain [] new_size new_table = new_table"
| "rehash_chain (p # q) new_size new_table =
     (let k = shift_hash (fst p) new_size
      in rehash_chain q new_size (new_table[k := p # new_table ! k]))"

definition rehash :: "HashTab \<Rightarrow> error + HashTab" where
  "rehash ht =
     (case getsize ht of
        Inl e \<Rightarrow> Inl e
      | Inr n \<Rightarrow>
          (let new_size = nat (n mod 2 ^ 32);
               new_table = foldl (\<lambda>t i. rehash_chain (ht_table ht ! i) new_size t)
                             (replicate new_size []) [0 ..< ht_size ht]
           in Inr (ht\<lparr>ht_idx := ht_idx ht + 1, ht_size := new_size, ht_table := new_table\<rparr>)))"

text \<open>
  \<^verbatim>\<open>ht_insert\<close>.  The comparison of the number of entries with the product of the load
  factor and the size is exact here; in C it is made on \<^verbatim>\<open>float\<close> values.
\<close>

definition ht_insert :: "HashTab \<Rightarrow> string \<Rightarrow> IDprop \<Rightarrow> error + (ht_status \<times> HashTab)" where
  "ht_insert ht key val =
     (let k = shift_hash key (ht_size ht) in
      if \<exists>q \<in> set (ht_table ht ! k). key_strcmp (fst q) key = 0
      then Inr (HASH_TABLE_KEY_VALUE_PAIR_EXISTS, ht)
      else
        (let ht1 = ht\<lparr>ht_num_entries := ht_num_entries ht + 1\<rparr> in
         if of_nat (ht_num_entries ht1) \<ge> ht_max_loadfactor ht1 * of_nat (ht_size ht1) then
           (case rehash ht1 of
              Inl e \<Rightarrow> Inl e
            | Inr ht2 \<Rightarrow>
                if ht_num_entries ht2 > ht_size ht2
                then Inr (HASH_TABLE_NO_SPACE_FOR_NODE, ht2)
                else
                  (let k = shift_hash key (ht_size ht2)
                   in Inr (EXIT_SUCCESS,
                           ht2\<lparr>ht_table := (ht_table ht2)[k := (key, val) # ht_table ht2 ! k]\<rparr>)))
         else Inr (EXIT_SUCCESS,
                   ht1\<lparr>ht_table := (ht_table ht1)[k := (key, val) # ht_table ht1 ! k]\<rparr>)))"

section \<open>The symbol table (symboltable.c)\<close>

text \<open>
  The two pointers \<^verbatim>\<open>table\<close> and \<^verbatim>\<open>saved_table\<close> may point to the same hash table,
  so the hash tables live in a store: \<open>heap\<close> holds one cell per allocated table, a
  pointer is the index of its cell or \<open>None\<close> for \<^verbatim>\<open>NULL\<close>, and a freed cell is
  \<open>None\<close>.
\<close>

record symtab =
  heap :: "HashTab option list"
  table :: "nat option"
  saved_table :: "nat option"
  curr_offset :: "32 word"

definition ht_at :: "symtab \<Rightarrow> nat option \<Rightarrow> error + HashTab" where
  "ht_at st p =
     (case p of
        None \<Rightarrow> Inl NULL_DEREFERENCE
      | Some a \<Rightarrow>
          if a < length (heap st) then
            (case heap st ! a of None \<Rightarrow> Inl USE_AFTER_FREE | Some ht \<Rightarrow> Inr ht)
          else Inl USE_AFTER_FREE)"

definition ht_store :: "symtab \<Rightarrow> nat option \<Rightarrow> HashTab \<Rightarrow> symtab" where
  "ht_store st p ht = (case p of None \<Rightarrow> st | Some a \<Rightarrow> st\<lparr>heap := (heap st)[a := Some ht]\<rparr>)"

text \<open>The static variables before \<^verbatim>\<open>init_symbol_table\<close> runs: zero.\<close>

definition symtab0 :: symtab where
  "symtab0 = \<lparr>heap = [], table = None, saved_table = None, curr_offset = 0\<rparr>"

definition init_symbol_table :: "symtab \<Rightarrow> symtab" where
  "init_symbol_table st =
     st\<lparr>saved_table := None,
        table := Some (length (heap st)),
        heap := heap st @ [Some (ht_init (3 / 4))],
        curr_offset := 1\<rparr>"

definition find_name :: "symtab \<Rightarrow> string \<Rightarrow> error + IDprop option" where
  "find_name st ident =
     (case ht_at st (table st) of
        Inl e \<Rightarrow> Inl e
      | Inr t \<Rightarrow>
          (case ht_search t ident of
             Some prop \<Rightarrow> Inr (Some prop)
           | None \<Rightarrow>
               (case saved_table st of
                  None \<Rightarrow> Inr None
                | Some g \<Rightarrow>
                    (case ht_at st (Some g) of
                       Inl e \<Rightarrow> Inl e
                     | Inr s \<Rightarrow>
                         (case ht_search s ident of
                            None \<Rightarrow> Inr None
                          | Some prop \<Rightarrow>
                              if \<not> IS_CALLABLE_TYPE (type prop) then Inr None
                              else Inr (Some prop))))))"

definition open_subroutine :: "symtab \<Rightarrow> string \<Rightarrow> IDprop \<Rightarrow> error + (bool \<times> symtab)" where
  "open_subroutine st ident prop =
     (case ht_at st (table st) of
        Inl e \<Rightarrow> Inl e
      | Inr t \<Rightarrow>
          (case ht_insert t ident prop of
             Inl e \<Rightarrow> Inl e
           | Inr (status, t') \<Rightarrow>
               (let st1 = ht_store st (table st) t' in
                if status \<noteq> EXIT_SUCCESS then Inr (False, st1)
                else Inr (True,
                       st1\<lparr>saved_table := table st1,
                           table := Some (length (heap st1)),
                           heap := heap st1 @ [Some (ht_init (3 / 4))],
                           curr_offset := 1\<rparr>))))"

definition close_subroutine :: "symtab \<Rightarrow> error + symtab" where
  "close_subroutine st =
     (case ht_at st (table st) of
        Inl e \<Rightarrow> Inl e
      | Inr t \<Rightarrow>
          (case table st of
             None \<Rightarrow> Inl NULL_DEREFERENCE
           | Some a \<Rightarrow> Inr (st\<lparr>heap := (heap st)[a := None], table := saved_table st\<rparr>)))"

text \<open>
  \<^verbatim>\<open>insert_name\<close>.  The table stores the pointer \<^verbatim>\<open>prop\<close>, and the offset is written
  through that pointer after the insertion: the entry of the table carries the offset.
\<close>

definition insert_name :: "symtab \<Rightarrow> string \<Rightarrow> IDprop \<Rightarrow> error + (bool \<times> symtab)" where
  "insert_name st ident prop =
     (case find_name st ident of
        Inl e \<Rightarrow> Inl e
      | Inr (Some p) \<Rightarrow> Inr (False, st)
      | Inr None \<Rightarrow>
          (case ht_at st (table st) of
             Inl e \<Rightarrow> Inl e
           | Inr t \<Rightarrow>
               (let prop' = (if IS_VARIABLE (type prop) then prop\<lparr>offset := curr_offset st\<rparr>
                             else prop) in
                case ht_insert t ident prop' of
                  Inl e \<Rightarrow> Inl e
                | Inr (status, t') \<Rightarrow>
                    (let st1 = ht_store st (table st) t' in
                     if status \<noteq> EXIT_SUCCESS then Inr (False, st1)
                     else if IS_VARIABLE (type prop)
                       then Inr (True, st1\<lparr>curr_offset := curr_offset st1 + 1\<rparr>)
                     else Inr (True, st1)))))"

definition get_variables_width :: "symtab \<Rightarrow> int" where
  "get_variables_width st = sint (curr_offset st)"

section \<open>Scopes as maps\<close>

text \<open>
  The contents of a hash table are the entries of its chains; as a map, a key has the
  value of its first entry.  A hash table is well formed when it has as many buckets as
  its size says, every entry lies in the bucket of its hash, no key occurs twice, the
  count of entries is right, the size is the prime of its index (the power of two less
  the difference in \<^verbatim>\<open>delta\<close>), the load factor is the one the symbol table sets, and
  the load is below it.
\<close>

definition ht_entries :: "HashTab \<Rightarrow> (string \<times> IDprop) list" where
  "ht_entries ht = concat (ht_table ht)"

definition ht_lookup :: "HashTab \<Rightarrow> string \<Rightarrow> IDprop option" where
  "ht_lookup ht key = map_of (ht_entries ht) key"

definition buckets_ok :: "(string \<times> IDprop) list list \<Rightarrow> nat \<Rightarrow> bool" where
  "buckets_ok t n \<longleftrightarrow> length t = n \<and>
     list_all (\<lambda>(i, b). list_all (\<lambda>e. shift_hash (fst e) n = i) b) (enumerate 0 t)"

definition ht_ok :: "HashTab \<Rightarrow> bool" where
  "ht_ok ht \<longleftrightarrow>
     buckets_ok (ht_table ht) (ht_size ht) \<and>
     distinct (map fst (ht_entries ht)) \<and>
     length (ht_entries ht) = ht_num_entries ht \<and>
     4 \<le> ht_idx ht \<and> ht_idx ht < 32 \<and>
     ht_size ht + delta ! ht_idx ht = 2 ^ ht_idx ht \<and>
     ht_max_loadfactor ht = 3 / 4 \<and>
     4 * ht_num_entries ht < 3 * ht_size ht"

text \<open>
  A state of the symbol table is well formed when \<^verbatim>\<open>table\<close> points to a well-formed
  hash table, and so does \<^verbatim>\<open>saved_table\<close> unless it is \<^verbatim>\<open>NULL\<close>.  The active scope
  is the contents of \<^verbatim>\<open>table\<close>, the global scope of an open subroutine the contents of
  \<^verbatim>\<open>saved_table\<close>.  A subroutine is open when a table is saved and is not the active
  one.
\<close>

definition st_ok :: "symtab \<Rightarrow> bool" where
  "st_ok st \<longleftrightarrow>
     (case ht_at st (table st) of Inl e \<Rightarrow> False | Inr t \<Rightarrow> ht_ok t) \<and>
     (case saved_table st of
        None \<Rightarrow> True
      | Some g \<Rightarrow> (case ht_at st (Some g) of Inl e \<Rightarrow> False | Inr s \<Rightarrow> ht_ok s))"

definition active_scope :: "symtab \<Rightarrow> string \<Rightarrow> IDprop option" where
  "active_scope st = (case ht_at st (table st) of Inl e \<Rightarrow> Map.empty | Inr t \<Rightarrow> ht_lookup t)"

definition global_scope :: "symtab \<Rightarrow> string \<Rightarrow> IDprop option" where
  "global_scope st =
     (case saved_table st of
        None \<Rightarrow> Map.empty
      | Some g \<Rightarrow> (case ht_at st (Some g) of Inl e \<Rightarrow> Map.empty | Inr s \<Rightarrow> ht_lookup s))"

definition visible :: "symtab \<Rightarrow> string \<Rightarrow> IDprop option" where
  "visible st n =
     (case active_scope st n of
        Some p \<Rightarrow> Some p
      | None \<Rightarrow>
          (case global_scope st n of
             None \<Rightarrow> None
           | Some p \<Rightarrow> if IS_CALLABLE_TYPE (type p) then Some p else None))"

definition subroutine_open :: "symtab \<Rightarrow> bool" where
  "subroutine_open st \<longleftrightarrow> (\<exists>g. saved_table st = Some g) \<and> table st \<noteq> saved_table st"

text \<open>
  Example states: the global scope with a variable \<open>v\<close>; then the procedure \<open>f\<close>
  opened; then a local variable \<open>a\<close> in it.
\<close>

definition ex_proc :: IDprop where
  "ex_proc = \<lparr>type = TYPE_CALLABLE, offset = 1, nparams = 0, params = []\<rparr>"

definition ex_var :: IDprop where
  "ex_var = \<lparr>type = TYPE_INTEGER, offset = 0, nparams = 0, params = []\<rparr>"

definition state_of :: "error + (bool \<times> symtab) \<Rightarrow> symtab" where
  "state_of r = (case r of Inl e \<Rightarrow> symtab0 | Inr (b, st) \<Rightarrow> st)"

definition ex_global :: symtab where
  "ex_global = state_of (insert_name (init_symbol_table symtab0) ''v'' ex_var)"

definition ex_open :: symtab where
  "ex_open = state_of (open_subroutine ex_global ''f'' ex_proc)"

definition ex_local :: symtab where
  "ex_local = state_of (insert_name ex_open ''a'' ex_var)"

text \<open>A token to start from, for the examples.\<close>

definition ex_token :: Token where
  "ex_token = \<lparr>ttype = TOK_EOF, tvalue = 0, tlexeme = [], tstring = []\<rparr>"

section \<open>The code emitter\<close>

text \<open>
  Modelled from the spec: the code emitter (codegen.c and codegen.h) is not among the
  sources.  By the specification it keeps a growing, ordered sequence of instructions
  and a monotone label counter: each operation of the emitter appends one entry, which
  here records the call and its arguments, and \<^verbatim>\<open>get_label\<close> returns the counter and
  advances it.  The opcodes are those simplc.c names.
\<close>

datatype Bytecode =
    JVM_RETURN | JVM_ARETURN | JVM_IRETURN | JVM_IFEQ | JVM_GOTO
  | JVM_ASTORE | JVM_ISTORE | JVM_IASTORE | JVM_ALOAD | JVM_ILOAD | JVM_IALOAD
  | JVM_LDC | JVM_INEG | JVM_IOR | JVM_IADD | JVM_ISUB | JVM_IAND | JVM_IMUL
  | JVM_IDIV | JVM_IREM | JVM_IXOR
  | JVM_IF_ICMPEQ | JVM_IF_ICMPNE | JVM_IF_ICMPGE | JVM_IF_ICMPGT
  | JVM_IF_ICMPLE | JVM_IF_ICMPLT

datatype JVMatype = T_INT

datatype emitted =
    SET_CLASS_NAME string
  | INIT_SUBROUTINE string "IDprop option"
  | CLOSE_SUBROUTINE int
  | GEN_1 Bytecode
  | GEN_2 Bytecode int
  | GEN_2_LABEL Bytecode int
  | GEN_LABEL int
  | GEN_CMP Bytecode
  | GEN_CALL string IDprop
  | GEN_NEWARRAY JVMatype
  | GEN_PRINT ValType
  | GEN_PRINT_STRING string
  | GEN_READ ValType

text \<open>
  The state of the compiler: the global variables \<^verbatim>\<open>token\<close> (the lookahead token) and
  \<^verbatim>\<open>return_type\<close> of simplc.c, the static variables of the symbol table, and the
  sequence and counter of the emitter.  The scanner is the supplier of tokens: \<open>input\<close>
  holds the tokens it will deliver, in order, and after the last of them it delivers
  \<^verbatim>\<open>TOK_EOF\<close>.
\<close>

record pstate =
  token :: Token
  input :: "Token list"
  syms :: symtab
  return_type :: ValType
  code :: "emitted list"
  next_label :: int

definition emit :: "emitted \<Rightarrow> pstate \<Rightarrow> pstate" where
  "emit e s = s\<lparr>code := code s @ [e]\<rparr>"

definition gen_1 :: "Bytecode \<Rightarrow> pstate \<Rightarrow> pstate" where
  "gen_1 opcode s = emit (GEN_1 opcode) s"

definition gen_2 :: "Bytecode \<Rightarrow> int \<Rightarrow> pstate \<Rightarrow> pstate" where
  "gen_2 opcode operand s = emit (GEN_2 opcode operand) s"

definition gen_2_label :: "Bytecode \<Rightarrow> int \<Rightarrow> pstate \<Rightarrow> pstate" where
  "gen_2_label opcode label s = emit (GEN_2_LABEL opcode label) s"

definition gen_label :: "int \<Rightarrow> pstate \<Rightarrow> pstate" where
  "gen_label label s = emit (GEN_LABEL label) s"

definition gen_cmp :: "Bytecode \<Rightarrow> pstate \<Rightarrow> pstate" where
  "gen_cmp opcode s = emit (GEN_CMP opcode) s"

definition gen_call :: "string \<Rightarrow> IDprop \<Rightarrow> pstate \<Rightarrow> pstate" where
  "gen_call fname prop s = emit (GEN_CALL fname prop) s"

definition gen_newarray :: "JVMatype \<Rightarrow> pstate \<Rightarrow> pstate" where
  "gen_newarray atype s = emit (GEN_NEWARRAY atype) s"

definition gen_print :: "ValType \<Rightarrow> pstate \<Rightarrow> pstate" where
  "gen_print t s = emit (GEN_PRINT t) s"

definition gen_print_string :: "string \<Rightarrow> pstate \<Rightarrow> pstate" where
  "gen_print_string str s = emit (GEN_PRINT_STRING str) s"

definition gen_read :: "ValType \<Rightarrow> pstate \<Rightarrow> pstate" where
  "gen_read t s = emit (GEN_READ t) s"

definition set_class_name :: "string \<Rightarrow> pstate \<Rightarrow> pstate" where
  "set_class_name cname s = emit (SET_CLASS_NAME cname) s"

definition init_subroutine_codegen :: "string \<Rightarrow> IDprop option \<Rightarrow> pstate \<Rightarrow> pstate" where
  "init_subroutine_codegen sname prop s = emit (INIT_SUBROUTINE sname prop) s"

definition close_subroutine_codegen :: "int \<Rightarrow> pstate \<Rightarrow> pstate" where
  "close_subroutine_codegen varwidth s = emit (CLOSE_SUBROUTINE varwidth) s"

definition get_label :: "pstate \<Rightarrow> int \<times> pstate" where
  "get_label s = (next_label s, s\<lparr>next_label := next_label s + 1\<rparr>)"

definition get_token :: "pstate \<Rightarrow> pstate" where
  "get_token s =
     (case input s of
        [] \<Rightarrow> s\<lparr>token := (token s)\<lparr>ttype := TOK_EOF\<rparr>\<rparr>
      | t # ts \<Rightarrow> s\<lparr>token := t, input := ts\<rparr>)"

definition token_type :: "pstate \<Rightarrow> TokenType" where
  "token_type s = ttype (token s)"

definition STARTS_FACTOR :: "TokenType \<Rightarrow> bool" where
  "STARTS_FACTOR t \<longleftrightarrow> t = TOK_ID \<or> t = TOK_NUM \<or> t = TOK_LPAR \<or> t = TOK_NOT
     \<or> t = TOK_TRUE \<or> t = TOK_FALSE"

definition STARTS_EXPR :: "TokenType \<Rightarrow> bool" where
  "STARTS_EXPR t \<longleftrightarrow> t = TOK_ID \<or> t = TOK_NUM \<or> t = TOK_LPAR \<or> t = TOK_NOT
     \<or> t = TOK_TRUE \<or> t = TOK_FALSE \<or> t = TOK_MINUS"

definition IS_ADDOP :: "TokenType \<Rightarrow> bool" where
  "IS_ADDOP t \<longleftrightarrow> tok_ord TOK_MINUS \<le> tok_ord t \<and> tok_ord t \<le> tok_ord TOK_PLUS"

definition IS_MULOP :: "TokenType \<Rightarrow> bool" where
  "IS_MULOP t \<longleftrightarrow> tok_ord TOK_AND \<le> tok_ord t \<and> tok_ord t \<le> tok_ord TOK_MOD"

definition IS_RELOP :: "TokenType \<Rightarrow> bool" where
  "IS_RELOP t \<longleftrightarrow> tok_ord TOK_EQ \<le> tok_ord t \<and> tok_ord t \<le> tok_ord TOK_NE"

definition IS_TYPE_TOKEN :: "TokenType \<Rightarrow> bool" where
  "IS_TYPE_TOKEN t \<longleftrightarrow> t = TOK_BOOLEAN \<or> t = TOK_INTEGER"

definition IS_STATEMENT :: "TokenType \<Rightarrow> bool" where
  "IS_STATEMENT t \<longleftrightarrow> t = TOK_EXIT \<or> t = TOK_IF \<or> t = TOK_ID \<or> t = TOK_READ
     \<or> t = TOK_WHILE \<or> t = TOK_WRITE"

definition quoted :: "string \<Rightarrow> string" where
  "quoted w = [CHR 39] @ w @ [CHR 39]"

definition token_names :: "string list" where
  "token_names =
    [''end-of-file'', ''identifier'', ''number'', ''string'', quoted ''array'',
     quoted ''begin'', quoted ''boolean'', quoted ''chill'', quoted ''define'',
     quoted ''do'', quoted ''else'', quoted ''elsif'', quoted ''end'', quoted ''exit'',
     quoted ''false'', quoted ''if'', quoted ''integer'', quoted ''not'',
     quoted ''program'', quoted ''read'', quoted ''then'', quoted ''true'',
     quoted ''while'', quoted ''write'', quoted ''='', quoted ''>='', quoted ''>'',
     quoted ''<='', quoted ''<'', quoted ''#'', quoted ''-'', quoted ''or'',
     quoted ''+'', quoted ''and'', quoted ''/'', quoted ''*'', quoted ''mod'',
     quoted ''&'', quoted ''['', quoted '']'', quoted '','', quoted ''<-'',
     quoted ''('', quoted '')'', quoted '';'', quoted ''->'']"

definition get_token_string :: "TokenType \<Rightarrow> string" where
  "get_token_string t = token_names ! tok_ord t"

text \<open>
  A fatal error ends the compilation: \<open>then_do\<close> runs the next step on the result of a
  step that returned, and passes an error on.
\<close>

definition then_do :: "error + 'a \<Rightarrow> ('a \<Rightarrow> error + 'b) \<Rightarrow> error + 'b" where
  "then_do m f = (case m of Inl e \<Rightarrow> Inl e | Inr x \<Rightarrow> f x)"

definition check_types :: "ValType \<Rightarrow> ValType \<Rightarrow> pstate \<Rightarrow> error + pstate" where
  "check_types found expected s =
     (if found \<noteq> expected then Inl (INCOMPATIBLE_TYPES expected found) else Inr s)"

definition expect :: "TokenType \<Rightarrow> pstate \<Rightarrow> error + pstate" where
  "expect t s = (if token_type s = t then Inr (get_token s) else Inl (ERR_EXPECT t (token_type s)))"

definition expect_id :: "pstate \<Rightarrow> error + (string \<times> pstate)" where
  "expect_id s =
     (if token_type s = TOK_ID then Inr (tlexeme (token s), get_token s)
      else Inl (ERR_EXPECT TOK_ID (token_type s)))"


section \<open>The parser (simplc.c)\<close>

text \<open>
  Each parsing routine is a function from the state to an error or the new state (with
  the type it computed, for the routines with a \<^verbatim>\<open>ValType *\<close> parameter).  The routines
  call each other recursively, so each takes the number \<open>n\<close> of nested calls and loop
  rounds it may still make, and a run that would need more ends in \<open>OUT_OF_FUEL\<close>.  A
  routine whose name ends in \<open>_body\<close> is the body of the C function of that name, with
  the parsing routines it calls as its first arguments; a routine whose name ends in
  \<open>_loop\<close> is a \<^verbatim>\<open>while\<close> loop of the C function that contains it.
\<close>

type_synonym eres = "error + (ValType \<times> pstate)"
type_synonym sres = "error + pstate"

definition parse_expr_body :: "(pstate \<Rightarrow> eres) \<Rightarrow> pstate \<Rightarrow> eres" where
  "parse_expr_body parse_simple s =
     then_do (parse_simple s) (\<lambda>(t1, s).
       if IS_RELOP (token_type s) then
         (let op = token_type s in
          if IS_ARRAY t1 then Inl (ERR_ILLEGAL_ARRAY_OPERATION (get_token_string op))
          else
            then_do (parse_simple (get_token s)) (\<lambda>(t2, s).
              if IS_ARRAY t2 then Inl (ERR_ILLEGAL_ARRAY_OPERATION (get_token_string op))
              else if op = TOK_EQ \<or> op = TOK_NE then
                then_do (check_types t2 t1 s) (\<lambda>s.
                  Inr (TYPE_BOOLEAN,
                       if op = TOK_EQ then gen_cmp JVM_IF_ICMPEQ s
                       else if op = TOK_NE then gen_cmp JVM_IF_ICMPNE s else s))
              else
                then_do (check_types t1 TYPE_INTEGER s) (\<lambda>s.
                then_do (check_types t2 TYPE_INTEGER s) (\<lambda>s.
                  Inr (TYPE_BOOLEAN,
                       if op = TOK_GE then gen_cmp JVM_IF_ICMPGE s
                       else if op = TOK_GT then gen_cmp JVM_IF_ICMPGT s
                       else if op = TOK_LE then gen_cmp JVM_IF_ICMPLE s
                       else if op = TOK_LT then gen_cmp JVM_IF_ICMPLT s else s)))))
       else Inr (t1, s))"

primrec simple_loop :: "(pstate \<Rightarrow> eres) \<Rightarrow> nat \<Rightarrow> ValType \<Rightarrow> pstate \<Rightarrow> eres" where
  "simple_loop parse_term 0 t0 s = Inl OUT_OF_FUEL"
| "simple_loop parse_term (Suc n) t0 s =
     (if IS_ADDOP (token_type s) then
        (let op = token_type s in
         then_do (parse_term (get_token s)) (\<lambda>(t1, s).
           if IS_ARRAY t1 then Inl (ERR_ILLEGAL_ARRAY_OPERATION (get_token_string op))
           else if op = TOK_OR then
             then_do (check_types t0 TYPE_BOOLEAN s) (\<lambda>s.
             then_do (check_types t1 TYPE_BOOLEAN s) (\<lambda>s.
               simple_loop parse_term n t0 (gen_1 JVM_IOR s)))
           else
             then_do (check_types t0 TYPE_INTEGER s) (\<lambda>s.
             then_do (check_types t1 TYPE_INTEGER s) (\<lambda>s.
               simple_loop parse_term n t0
                 (if op = TOK_PLUS then gen_1 JVM_IADD s
                  else if op = TOK_MINUS then gen_1 JVM_ISUB s else s)))))
      else Inr (t0, s))"

definition parse_simple_body :: "(pstate \<Rightarrow> eres) \<Rightarrow> nat \<Rightarrow> pstate \<Rightarrow> eres" where
  "parse_simple_body parse_term n s =
     (if token_type s = TOK_MINUS then
        then_do (parse_term (get_token s)) (\<lambda>(t0, s).
          let s = gen_1 JVM_INEG s in
          if IS_ARRAY t0 then Inl (ERR_ILLEGAL_ARRAY_OPERATION ''unary minus'')
          else then_do (check_types t0 TYPE_INTEGER s) (\<lambda>s. Inr (t0, s)))
      else
        then_do (parse_term s) (\<lambda>(t0, s).
          if IS_ADDOP (token_type s) \<and> IS_ARRAY t0
          then Inl (ERR_ILLEGAL_ARRAY_OPERATION (get_token_string (token_type s)))
          else simple_loop parse_term n t0 s))"

primrec term_loop :: "(pstate \<Rightarrow> eres) \<Rightarrow> nat \<Rightarrow> ValType \<Rightarrow> pstate \<Rightarrow> eres" where
  "term_loop parse_factor 0 t0 s = Inl OUT_OF_FUEL"
| "term_loop parse_factor (Suc n) t0 s =
     (if IS_MULOP (token_type s) then
        (let op = token_type s in
         then_do (parse_factor (get_token s)) (\<lambda>(t1, s).
           if IS_ARRAY t1 then Inl (ERR_ILLEGAL_ARRAY_OPERATION (get_token_string op))
           else if op = TOK_AND then
             then_do (check_types t0 TYPE_BOOLEAN s) (\<lambda>s.
             then_do (check_types t1 TYPE_BOOLEAN s) (\<lambda>s.
               term_loop parse_factor n t0 (gen_1 JVM_IAND s)))
           else
             then_do (check_types t0 TYPE_INTEGER s) (\<lambda>s.
             then_do (check_types t1 TYPE_INTEGER s) (\<lambda>s.
               term_loop parse_factor n t0
                 (if op = TOK_MUL then gen_1 JVM_IMUL s
                  else if op = TOK_DIV then gen_1 JVM_IDIV s
                  else if op = TOK_MOD then gen_1 JVM_IREM s else s)))))
      else Inr (t0, s))"

definition parse_term_body :: "(pstate \<Rightarrow> eres) \<Rightarrow> nat \<Rightarrow> pstate \<Rightarrow> eres" where
  "parse_term_body parse_factor n s =
     then_do (parse_factor s) (\<lambda>(t0, s).
       if IS_MULOP (token_type s) \<and> IS_ARRAY t0
       then Inl (ERR_ILLEGAL_ARRAY_OPERATION (get_token_string (token_type s)))
       else term_loop parse_factor n t0 s)"

text \<open>
  \<^verbatim>\<open>parse_index\<close> ignores the result of \<^verbatim>\<open>find_name\<close> and reads \<^verbatim>\<open>prop\<close>; its
  callers have found the identifier before, and \<^verbatim>\<open>prop\<close> is unset otherwise.
\<close>

definition parse_index_body :: "(pstate \<Rightarrow> eres) \<Rightarrow> string \<Rightarrow> pstate \<Rightarrow> sres" where
  "parse_index_body parse_simple ident s =
     then_do (find_name (syms s) ident) (\<lambda>found.
     then_do (expect TOK_LBRACK s) (\<lambda>s.
     then_do (if token_type s = TOK_NUM then
                (case found of
                   None \<Rightarrow> Inl UNINITIALISED_READ
                 | Some prop \<Rightarrow> Inr (gen_2 JVM_ALOAD (uint (offset prop)) s))
              else Inr s) (\<lambda>s.
     then_do (parse_simple s) (\<lambda>(t1, s).
     then_do (check_types t1 TYPE_INTEGER s) (\<lambda>s.
       expect TOK_RBRACK s)))))"

text \<open>The read \<^verbatim>\<open>prop->params[i]\<close>, checked against the bounds of the array.\<close>

definition param_at :: "IDprop \<Rightarrow> nat \<Rightarrow> error + ValType" where
  "param_at prop i =
     (if i < length (params prop) then Inr (params prop ! i)
      else Inl (INDEX_OUT_OF_BOUNDS (int i)))"

primrec arglist_loop :: "(pstate \<Rightarrow> eres) \<Rightarrow> nat \<Rightarrow> string \<Rightarrow> IDprop \<Rightarrow> nat \<Rightarrow> pstate
    \<Rightarrow> error + (nat \<times> pstate)" where
  "arglist_loop parse_expr 0 ident prop i s = Inl OUT_OF_FUEL"
| "arglist_loop parse_expr (Suc n) ident prop i s =
     (if token_type s = TOK_COMMA then
        (if i \<ge> nparams prop then Inl (ERR_TOO_MANY_ARGUMENTS ident)
         else
           then_do (parse_expr (get_token s)) (\<lambda>(t1, s).
           then_do (param_at prop i) (\<lambda>expected.
           then_do (check_types t1 expected s) (\<lambda>s.
             arglist_loop parse_expr n ident prop (i + 1) s))))
      else Inr (i, s))"

definition parse_arglist_body :: "(pstate \<Rightarrow> eres) \<Rightarrow> nat \<Rightarrow> string \<Rightarrow> pstate \<Rightarrow> sres" where
  "parse_arglist_body parse_expr n ident s =
     then_do (find_name (syms s) ident) (\<lambda>found.
       case found of
         None \<Rightarrow> Inl (ERR_UNKNOWN_IDENTIFIER ident)
       | Some prop \<Rightarrow>
           (let routine = (if IS_FUNCTION (type prop) then ''function'' else ''procedure'') in
            then_do (expect TOK_LPAR s) (\<lambda>s.
              then_do
                (if STARTS_EXPR (token_type s) then
                   (if nparams prop = 0 then Inl (ERR_TAKES_NO_ARGUMENTS ident routine)
                    else
                      then_do (parse_expr s) (\<lambda>(t1, s).
                      then_do (param_at prop 0) (\<lambda>expected.
                      then_do (check_types t1 expected s) (\<lambda>s.
                      then_do (arglist_loop parse_expr n ident prop 1 s) (\<lambda>(i, s).
                        if i < nparams prop then Inl (ERR_TOO_FEW_ARGUMENTS ident)
                        else Inr s)))))
                 else Inr s)
                (\<lambda>s. expect TOK_RPAR s))))"

definition parse_factor_body ::
    "(pstate \<Rightarrow> eres) \<Rightarrow> (string \<Rightarrow> pstate \<Rightarrow> sres) \<Rightarrow> (string \<Rightarrow> pstate \<Rightarrow> sres)
      \<Rightarrow> (pstate \<Rightarrow> eres) \<Rightarrow> pstate \<Rightarrow> eres" where
  "parse_factor_body parse_expr parse_index parse_arglist parse_factor s =
     (case token_type s of
        TOK_ID \<Rightarrow>
          then_do (expect_id s) (\<lambda>(vname, s).
          then_do (find_name (syms s) vname) (\<lambda>found.
            case found of
              None \<Rightarrow> Inl (ERR_UNKNOWN_IDENTIFIER vname)
            | Some prop \<Rightarrow>
                if token_type s = TOK_LBRACK then
                  (if \<not> IS_ARRAY (type prop) then Inl (ERR_NOT_AN_ARRAY vname)
                   else
                     then_do (parse_index vname s) (\<lambda>s.
                       Inr (type prop AND 6, gen_1 JVM_IALOAD s)))
                else if token_type s = TOK_LPAR then
                  (if \<not> IS_FUNCTION (type prop) then Inl (ERR_NOT_A_FUNCTION vname)
                   else
                     then_do (parse_arglist vname s) (\<lambda>s.
                       Inr (type prop XOR TYPE_CALLABLE, gen_call vname prop s)))
                else if IS_FUNCTION (type prop) then
                  Inl (ERR_MISSING_FUNCTION_ARGUMENT_LIST vname)
                else
                  Inr (type prop,
                       if IS_ARRAY_TYPE (type prop) then gen_2 JVM_ALOAD (uint (offset prop)) s
                       else gen_2 JVM_ILOAD (uint (offset prop)) s)))
      | TOK_NUM \<Rightarrow>
          Inr (TYPE_INTEGER, get_token (gen_2 JVM_LDC (tvalue (token s)) s))
      | TOK_NOT \<Rightarrow>
          then_do (parse_factor (get_token s)) (\<lambda>(t0, s).
          then_do (check_types t0 TYPE_BOOLEAN s) (\<lambda>s.
            Inr (t0, gen_1 JVM_IXOR (gen_2 JVM_LDC 1 s))))
      | TOK_TRUE \<Rightarrow> Inr (TYPE_BOOLEAN, get_token (gen_2 JVM_LDC 1 s))
      | TOK_FALSE \<Rightarrow> Inr (TYPE_BOOLEAN, get_token (gen_2 JVM_LDC 0 s))
      | TOK_LPAR \<Rightarrow>
          then_do (parse_expr (get_token s)) (\<lambda>(t0, s).
          then_do (expect TOK_RPAR s) (\<lambda>s. Inr (t0, s)))
      | _ \<Rightarrow> Inl (ERR_FACTOR_EXPECTED (token_type s)))"

primrec parse_factor :: "nat \<Rightarrow> pstate \<Rightarrow> eres" where
  "parse_factor 0 s = Inl OUT_OF_FUEL"
| "parse_factor (Suc n) s =
     (let parse_term = parse_term_body (parse_factor n) n;
          parse_simple = parse_simple_body parse_term n;
          parse_expr = parse_expr_body parse_simple
      in parse_factor_body parse_expr (parse_index_body parse_simple)
           (parse_arglist_body parse_expr n) (parse_factor n) s)"

definition parse_term :: "nat \<Rightarrow> pstate \<Rightarrow> eres" where
  "parse_term n = parse_term_body (parse_factor n) n"

definition parse_simple :: "nat \<Rightarrow> pstate \<Rightarrow> eres" where
  "parse_simple n = parse_simple_body (parse_term n) n"

definition parse_expr :: "nat \<Rightarrow> pstate \<Rightarrow> eres" where
  "parse_expr n = parse_expr_body (parse_simple n)"

definition parse_index :: "nat \<Rightarrow> string \<Rightarrow> pstate \<Rightarrow> sres" where
  "parse_index n = parse_index_body (parse_simple n)"

definition parse_arglist :: "nat \<Rightarrow> string \<Rightarrow> pstate \<Rightarrow> sres" where
  "parse_arglist n = parse_arglist_body (parse_expr n) n"


definition parse_exit :: "nat \<Rightarrow> pstate \<Rightarrow> sres" where
  "parse_exit n s =
     then_do (expect TOK_EXIT s) (\<lambda>s.
       if STARTS_EXPR (token_type s) then
         (if IS_PROCEDURE (return_type s)
          then Inl ERR_EXIT_EXPRESSION_NOT_ALLOWED_FOR_PROCEDURE
          else if IS_FUNCTION (return_type s) then
            then_do (parse_expr n s) (\<lambda>(t1, s).
              let s = (if IS_ARRAY_TYPE (return_type s) then gen_1 JVM_ARETURN s
                       else gen_1 JVM_IRETURN s);
                  t2 = SET_RETURN_TYPE (return_type s)
              in check_types t1 t2 s)
          else Inr s)
       else if IS_FUNCTION (return_type s) then Inl ERR_MISSING_EXIT_EXPRESSION_FOR_FUNCTION
       else Inr (gen_1 JVM_RETURN s))"

definition parse_name :: "nat \<Rightarrow> pstate \<Rightarrow> sres" where
  "parse_name n s =
     then_do (expect_id s) (\<lambda>(ident, s).
     then_do (find_name (syms s) ident) (\<lambda>found.
       case found of
         None \<Rightarrow> Inl (ERR_UNKNOWN_IDENTIFIER ident)
       | Some prop \<Rightarrow>
           if token_type s = TOK_LPAR then
             (if \<not> IS_PROCEDURE (type prop) then Inl (ERR_NOT_A_PROCEDURE ident)
              else then_do (parse_arglist n ident s) (\<lambda>s. Inr (gen_call ident prop s)))
           else if token_type s = TOK_LBRACK \<or> token_type s = TOK_GETS then
             (if IS_CALLABLE_TYPE (type prop) then Inl (ERR_NOT_A_VARIABLE ident)
              else
                then_do
                  (if token_type s = TOK_LBRACK then
                     (if \<not> IS_ARRAY (type prop) then Inl (ERR_NOT_AN_ARRAY ident)
                      else then_do (parse_index n ident s) (\<lambda>s.
                             Inr (type prop XOR TYPE_ARRAY, False, True, s)))
                   else if IS_ARRAY (type prop) then Inr (type prop, True, False, s)
                   else Inr (type prop, False, False, s))
                  (\<lambda>(proptype, is_array, is_indexed, s).
                then_do (expect TOK_GETS s) (\<lambda>s.
                  if STARTS_EXPR (token_type s) then
                    then_do (parse_expr n s) (\<lambda>(t1, s).
                      if \<not> IS_VARIABLE proptype then Inl (ERR_NOT_A_VARIABLE ident)
                      else
                        then_do
                          (if is_array then
                             then_do (check_types t1 proptype s) (\<lambda>s.
                               Inr (gen_2 JVM_ASTORE (uint (offset prop)) s))
                           else if IS_ARRAY t1 then
                             (if is_indexed then check_types t1 proptype s
                              else Inl (ERR_NOT_AN_ARRAY ident))
                           else check_types t1 proptype s)
                          (\<lambda>s.
                        let s = (if \<not> is_indexed \<and> \<not> is_array
                                 then gen_2 JVM_ISTORE (uint (offset prop)) s else s)
                        in Inr (if is_indexed then gen_1 JVM_IASTORE s else s)))
                  else if token_type s = TOK_ARRAY then
                    then_do (if is_indexed then check_types (type prop) proptype s else Inr s)
                      (\<lambda>s.
                    if \<not> IS_ARRAY (type prop) then Inl (ERR_NOT_AN_ARRAY ident)
                    else
                      then_do (parse_simple n (get_token s)) (\<lambda>(t1, s).
                      then_do (check_types t1 TYPE_INTEGER s) (\<lambda>s.
                        Inr (gen_2 JVM_ASTORE (uint (offset prop)) (gen_newarray T_INT s)))))
                  else Inl (ERR_ARRAY_ALLOCATION_OR_EXPRESSION_EXPECTED (token_type s)))))
           else Inl (ERR_ARGUMENT_LIST_OR_VARIABLE_ASSIGNMENT_EXPECTED (token_type s))))"

definition parse_read :: "nat \<Rightarrow> pstate \<Rightarrow> sres" where
  "parse_read n s =
     then_do (expect TOK_READ s) (\<lambda>s.
     then_do (expect_id s) (\<lambda>(vname, s).
     then_do (find_name (syms s) vname) (\<lambda>found.
       case found of
         None \<Rightarrow> Inl (ERR_UNKNOWN_IDENTIFIER vname)
       | Some prop \<Rightarrow>
           then_do
             (if token_type s = TOK_LBRACK then
                (if \<not> IS_ARRAY (type prop) then Inl (ERR_NOT_AN_ARRAY vname)
                 else parse_index n vname s)
              else if IS_ARRAY (type prop) then Inl (ERR_SCALAR_VARIABLE_EXPECTED vname)
              else Inr s)
             (\<lambda>s.
           let s = (if IS_INTEGER_TYPE (type prop) then gen_read TYPE_INTEGER s
                    else gen_read TYPE_BOOLEAN s)
           in Inr (if IS_ARRAY_TYPE (type prop) then gen_1 JVM_IASTORE s
                   else gen_2 JVM_ISTORE (uint (offset prop)) s)))))"

primrec write_loop :: "nat \<Rightarrow> nat \<Rightarrow> pstate \<Rightarrow> sres" where
  "write_loop n 0 s = Inl OUT_OF_FUEL"
| "write_loop n (Suc k) s =
     (if token_type s = TOK_AMPERSAND then
        (let s = get_token s in
         if token_type s = TOK_STR then
           write_loop n k (get_token (gen_print_string (tstring (token s)) s))
         else if STARTS_EXPR (token_type s) then
           then_do (parse_expr n s) (\<lambda>(t1, s).
             let s = gen_print t1 s in
             if IS_ARRAY t1 then Inl (ERR_ILLEGAL_ARRAY_OPERATION ''&'')
             else write_loop n k s)
         else Inl (ERR_EXPRESSION_OR_STRING_EXPECTED (token_type s)))
      else Inr s)"

definition parse_write :: "nat \<Rightarrow> pstate \<Rightarrow> sres" where
  "parse_write n s =
     then_do (expect TOK_WRITE s) (\<lambda>s.
       then_do
         (if token_type s = TOK_STR then
            Inr (get_token (gen_print_string (tstring (token s)) s))
          else if STARTS_EXPR (token_type s) then
            then_do (parse_expr n s) (\<lambda>(t1, s).
              let s = gen_print t1 s in
              if IS_ARRAY t1 then Inl (ERR_ILLEGAL_ARRAY_OPERATION ''write'')
              else Inr s)
          else Inl (ERR_EXPRESSION_OR_STRING_EXPECTED (token_type s)))
         (\<lambda>s. write_loop n n s))"

primrec statements_loop :: "(pstate \<Rightarrow> sres) \<Rightarrow> nat \<Rightarrow> pstate \<Rightarrow> sres" where
  "statements_loop parse_statement 0 s = Inl OUT_OF_FUEL"
| "statements_loop parse_statement (Suc k) s =
     (if token_type s = TOK_SEMICOLON then
        then_do (parse_statement (get_token s)) (\<lambda>s. statements_loop parse_statement k s)
      else Inr s)"

definition parse_statements_body :: "(pstate \<Rightarrow> sres) \<Rightarrow> nat \<Rightarrow> pstate \<Rightarrow> sres" where
  "parse_statements_body parse_statement n s =
     (if token_type s = TOK_CHILL then Inr (get_token s)
      else if IS_STATEMENT (token_type s) then
        then_do (parse_statement s) (\<lambda>s. statements_loop parse_statement n s)
      else Inl (ERR_STATEMENT_EXPECTED (token_type s)))"

primrec elsif_loop :: "(pstate \<Rightarrow> sres) \<Rightarrow> nat \<Rightarrow> int \<Rightarrow> int \<Rightarrow> nat \<Rightarrow> pstate \<Rightarrow> sres" where
  "elsif_loop parse_statements n l2 l3 0 s = Inl OUT_OF_FUEL"
| "elsif_loop parse_statements n l2 l3 (Suc k) s =
     (if token_type s = TOK_ELSIF then
        (let s = gen_label l2 s;
             s = get_token s
         in then_do (parse_expr n s) (\<lambda>(t1, s).
            let s = gen_2_label JVM_IFEQ l2 s in
            then_do (check_types t1 TYPE_BOOLEAN s) (\<lambda>s.
            then_do (expect TOK_THEN s) (\<lambda>s.
            then_do (parse_statements s) (\<lambda>s.
              elsif_loop parse_statements n l2 l3 k (gen_2_label JVM_GOTO l3 s))))))
      else Inr s)"

definition parse_if_body :: "(pstate \<Rightarrow> sres) \<Rightarrow> nat \<Rightarrow> pstate \<Rightarrow> sres" where
  "parse_if_body parse_statements n s =
     (let (l1, s) = get_label s;
          (l2, s) = get_label s;
          (l3, s) = get_label s
      in then_do (expect TOK_IF s) (\<lambda>s.
         then_do (parse_expr n s) (\<lambda>(t1, s).
         let s = gen_2_label JVM_IFEQ l1 s in
         then_do (check_types t1 TYPE_BOOLEAN s) (\<lambda>s.
         then_do (expect TOK_THEN s) (\<lambda>s.
         then_do (parse_statements s) (\<lambda>s.
         let s = gen_2_label JVM_GOTO l3 s;
             s = gen_label l1 s
         in then_do (elsif_loop parse_statements n l2 l3 n s) (\<lambda>s.
            then_do (if token_type s = TOK_ELSE then parse_statements (get_token s) else Inr s) (\<lambda>s.
            let s = gen_label l3 s in
            expect TOK_END s))))))))"

definition parse_while_body :: "(pstate \<Rightarrow> sres) \<Rightarrow> nat \<Rightarrow> pstate \<Rightarrow> sres" where
  "parse_while_body parse_statements n s =
     (let (l1, s) = get_label s;
          (l2, s) = get_label s
      in then_do (expect TOK_WHILE s) (\<lambda>s.
         let s = gen_label l1 s in
         then_do (parse_expr n s) (\<lambda>(t1, s).
         let s = gen_2_label JVM_IFEQ l2 s in
         then_do (check_types t1 TYPE_BOOLEAN s) (\<lambda>s.
         then_do (expect TOK_DO s) (\<lambda>s.
         then_do (parse_statements s) (\<lambda>s.
         then_do (expect TOK_END s) (\<lambda>s.
         let s = gen_2_label JVM_GOTO l1 s in
         Inr (gen_label l2 s))))))))"

definition parse_statement_body :: "(pstate \<Rightarrow> sres) \<Rightarrow> nat \<Rightarrow> pstate \<Rightarrow> sres" where
  "parse_statement_body parse_statement n s =
     (case token_type s of
        TOK_EXIT \<Rightarrow> parse_exit n s
      | TOK_IF \<Rightarrow> parse_if_body (parse_statements_body parse_statement n) n s
      | TOK_ID \<Rightarrow> parse_name n s
      | TOK_READ \<Rightarrow> parse_read n s
      | TOK_WHILE \<Rightarrow> parse_while_body (parse_statements_body parse_statement n) n s
      | TOK_WRITE \<Rightarrow> parse_write n s
      | _ \<Rightarrow> Inl (ERR_STATEMENT_EXPECTED (token_type s)))"

primrec parse_statement :: "nat \<Rightarrow> pstate \<Rightarrow> sres" where
  "parse_statement 0 s = Inl OUT_OF_FUEL"
| "parse_statement (Suc n) s = parse_statement_body (parse_statement n) n s"

definition parse_statements :: "nat \<Rightarrow> pstate \<Rightarrow> sres" where
  "parse_statements n = parse_statements_body (parse_statement n) n"

definition parse_if :: "nat \<Rightarrow> pstate \<Rightarrow> sres" where
  "parse_if n = parse_if_body (parse_statements n) n"

definition parse_while :: "nat \<Rightarrow> pstate \<Rightarrow> sres" where
  "parse_while n = parse_while_body (parse_statements n) n"

definition parse_type :: "ValType \<Rightarrow> pstate \<Rightarrow> error + (ValType \<times> pstate)" where
  "parse_type t0 s =
     then_do (if token_type s = TOK_BOOLEAN then Inr (t0 OR TYPE_BOOLEAN)
              else if token_type s = TOK_INTEGER then Inr (t0 OR TYPE_INTEGER)
              else Inl (ERR_TYPE_EXPECTED (token_type s))) (\<lambda>t0.
       let s = get_token s in
       if token_type s = TOK_ARRAY then Inr (t0 OR TYPE_ARRAY, get_token s)
       else Inr (t0, s))"

definition make_idprop :: "ValType \<Rightarrow> 32 word \<Rightarrow> nat \<Rightarrow> ValType list \<Rightarrow> IDprop" where
  "make_idprop t off np ps = \<lparr>type = t, offset = off, nparams = np, params = ps\<rparr>"

text \<open>
  \<^verbatim>\<open>parse_vardef\<close> declares each identifier by the same steps, written out twice in
  the C function: \<^verbatim>\<open>find_name\<close>, \<^verbatim>\<open>make_idprop\<close> and \<^verbatim>\<open>insert_name\<close>.
\<close>

definition declare_var :: "ValType \<Rightarrow> string \<Rightarrow> pstate \<Rightarrow> sres" where
  "declare_var t1 vname s =
     then_do (find_name (syms s) vname) (\<lambda>found.
       case found of
         Some p \<Rightarrow> Inl (ERR_MULTIPLE_DEFINITION vname)
       | None \<Rightarrow>
           (let prop = make_idprop t1 (word_of_int (get_variables_width (syms s))) 0 [] in
            then_do (insert_name (syms s) vname prop) (\<lambda>(ok, st).
              if \<not> ok then Inl (ERR_MULTIPLE_DEFINITION vname)
              else Inr (s\<lparr>syms := st\<rparr>))))"

primrec vardef_loop :: "ValType \<Rightarrow> nat \<Rightarrow> pstate \<Rightarrow> sres" where
  "vardef_loop t1 0 s = Inl OUT_OF_FUEL"
| "vardef_loop t1 (Suc k) s =
     (if token_type s = TOK_COMMA then
        then_do (expect_id (get_token s)) (\<lambda>(vname, s).
        then_do (declare_var t1 vname s) (\<lambda>s. vardef_loop t1 k s))
      else Inr s)"

definition parse_vardef :: "nat \<Rightarrow> pstate \<Rightarrow> sres" where
  "parse_vardef n s =
     then_do (parse_type 0 s) (\<lambda>(t1, s).
     then_do (expect_id s) (\<lambda>(vname, s).
     then_do (declare_var t1 vname s) (\<lambda>s.
     then_do (vardef_loop t1 n s) (\<lambda>s.
       expect TOK_SEMICOLON s))))"

primrec vardefs_loop :: "nat \<Rightarrow> nat \<Rightarrow> pstate \<Rightarrow> sres" where
  "vardefs_loop n 0 s = Inl OUT_OF_FUEL"
| "vardefs_loop n (Suc k) s =
     (if IS_TYPE_TOKEN (token_type s) then then_do (parse_vardef n s) (\<lambda>s. vardefs_loop n k s)
      else Inr s)"

definition parse_body :: "nat \<Rightarrow> pstate \<Rightarrow> sres" where
  "parse_body n s =
     then_do (expect TOK_BEGIN s) (\<lambda>s.
     then_do (vardefs_loop n n s) (\<lambda>s.
     then_do (parse_statements n s) (\<lambda>s.
       expect TOK_END s)))"

primrec params_loop :: "nat \<Rightarrow> (string \<times> ValType) list \<Rightarrow> pstate
    \<Rightarrow> error + ((string \<times> ValType) list \<times> pstate)" where
  "params_loop 0 vars s = Inl OUT_OF_FUEL"
| "params_loop (Suc k) vars s =
     (if token_type s = TOK_COMMA then
        then_do (parse_type 0 (get_token s)) (\<lambda>(t1, s).
        then_do (expect_id s) (\<lambda>(ident, s).
          params_loop k (vars @ [(ident, t1)]) s))
      else Inr (vars, s))"

text \<open>
  The loop of \<^verbatim>\<open>parse_funcdef\<close> over the list of parameters; it returns the last
  value of the variable \<^verbatim>\<open>prop\<close>, which \<^verbatim>\<open>init_subroutine_codegen\<close> receives.
\<close>

primrec insert_params :: "(string \<times> ValType) list \<Rightarrow> IDprop \<Rightarrow> pstate
    \<Rightarrow> error + (IDprop \<times> pstate)" where
  "insert_params [] prop s = Inr (prop, s)"
| "insert_params (v # vars) prop s =
     then_do (find_name (syms s) (fst v)) (\<lambda>found.
       case found of
         Some p \<Rightarrow> Inl (ERR_MULTIPLE_DEFINITION (fst v))
       | None \<Rightarrow>
           (let prop = make_idprop (snd v) (word_of_int (get_variables_width (syms s))) 0 [] in
            then_do (insert_name (syms s) (fst v) prop) (\<lambda>(ok, st).
              if \<not> ok then Inl (ERR_MULTIPLE_DEFINITION (fst v))
              else insert_params vars
                     (if IS_VARIABLE (type prop) then prop\<lparr>offset := curr_offset (syms s)\<rparr>
                      else prop)
                     (s\<lparr>syms := st\<rparr>))))"

definition parse_funcdef :: "nat \<Rightarrow> pstate \<Rightarrow> sres" where
  "parse_funcdef n s =
     (let s = s\<lparr>return_type := TYPE_NONE\<rparr> in
      then_do (expect TOK_DEFINE s) (\<lambda>s.
      then_do (expect_id s) (\<lambda>(funcid, s).
      then_do (expect TOK_LPAR s) (\<lambda>s.
      then_do
        (if IS_TYPE_TOKEN (token_type s) then
           then_do (parse_type 0 s) (\<lambda>(t1, s).
           then_do (expect_id s) (\<lambda>(ident, s).
             params_loop n [(ident, t1)] s))
         else Inr ([], s))
        (\<lambda>(vars, s).
      then_do (expect TOK_RPAR s) (\<lambda>s.
      then_do (if token_type s = TOK_TO then parse_type TYPE_CALLABLE (get_token s)
               else Inr (TYPE_CALLABLE, s)) (\<lambda>(t1, s).
      let s = s\<lparr>return_type := t1\<rparr>;
          prop = make_idprop t1 (word_of_int (get_variables_width (syms s)))
                   (length vars) (map snd vars)
      in then_do (open_subroutine (syms s) funcid prop) (\<lambda>(ok, st).
           if ok then
             then_do (insert_params vars prop (s\<lparr>syms := st\<rparr>)) (\<lambda>(prop, s).
             let s = init_subroutine_codegen funcid (Some prop) s in
             then_do (parse_body n s) (\<lambda>s.
             let s = close_subroutine_codegen (get_variables_width (syms s)) s in
             then_do (close_subroutine (syms s)) (\<lambda>st.
               Inr (s\<lparr>syms := st, return_type := TYPE_NONE\<rparr>))))
           else Inl (ERR_MULTIPLE_DEFINITION funcid)))))))))"

primrec funcdefs_loop :: "nat \<Rightarrow> nat \<Rightarrow> pstate \<Rightarrow> sres" where
  "funcdefs_loop n 0 s = Inl OUT_OF_FUEL"
| "funcdefs_loop n (Suc k) s =
     (if token_type s = TOK_DEFINE then then_do (parse_funcdef n s) (\<lambda>s. funcdefs_loop n k s)
      else Inr s)"

definition parse_program :: "nat \<Rightarrow> pstate \<Rightarrow> sres" where
  "parse_program n s =
     then_do (expect TOK_PROGRAM s) (\<lambda>s.
     then_do (expect_id s) (\<lambda>(class_name, s).
     let s = set_class_name class_name s in
     then_do (funcdefs_loop n n s) (\<lambda>s.
     let s = init_subroutine_codegen ''main'' None s in
     then_do (parse_body n s) (\<lambda>s.
     let s = gen_1 JVM_RETURN s in
     Inr (close_subroutine_codegen (get_variables_width (syms s)) s)))))"

text \<open>
  \<^verbatim>\<open>main\<close>: the units are initialised, the first token is read, and the program is
  parsed.  The emitter starts with no instructions; its first label is 0 here.
\<close>

definition initial_state :: "Token list \<Rightarrow> pstate" where
  "initial_state ts =
     \<lparr>token = ex_token, input = ts, syms = init_symbol_table symtab0,
      return_type = TYPE_NONE, code = [], next_label = 0\<rparr>"

definition compile :: "nat \<Rightarrow> Token list \<Rightarrow> sres" where
  "compile n ts = parse_program n (get_token (initial_state ts))"

text \<open>Tokens for the examples, and what the examples observe of a result.\<close>

definition Tok :: "TokenType \<Rightarrow> Token" where
  "Tok t = ex_token\<lparr>ttype := t\<rparr>"

definition TNum :: "int \<Rightarrow> Token" where
  "TNum v = ex_token\<lparr>ttype := TOK_NUM, tvalue := v\<rparr>"

definition TId :: "string \<Rightarrow> Token" where
  "TId v = ex_token\<lparr>ttype := TOK_ID, tlexeme := v\<rparr>"

definition outcome :: "sres \<Rightarrow> error + (emitted list \<times> TokenType)" where
  "outcome r = map_sum id (\<lambda>s. (code s, token_type s)) r"

text \<open>
  Example programs, as the tokens of their text:
  \<^verbatim>\<open>program C begin integer b; b <- - 1 + 2 end\<close>,
  \<^verbatim>\<open>program C begin integer array a; integer i; a[index] <- 1 end\<close> with an index token,
  and \<^verbatim>\<open>program C begin if true then chill elsif false then chill elsif true then chill
  else chill end end\<close>.
\<close>

definition ex_minus_program :: "Token list" where
  "ex_minus_program =
     [Tok TOK_PROGRAM, TId ''C'', Tok TOK_BEGIN, Tok TOK_INTEGER, TId ''b'', Tok TOK_SEMICOLON,
      TId ''b'', Tok TOK_GETS, Tok TOK_MINUS, TNum 1, Tok TOK_PLUS, TNum 2, Tok TOK_END]"

definition ex_index_program :: "Token \<Rightarrow> Token list" where
  "ex_index_program index =
     [Tok TOK_PROGRAM, TId ''C'', Tok TOK_BEGIN,
      Tok TOK_INTEGER, Tok TOK_ARRAY, TId ''a'', Tok TOK_SEMICOLON,
      Tok TOK_INTEGER, TId ''i'', Tok TOK_SEMICOLON,
      TId ''a'', Tok TOK_LBRACK, index, Tok TOK_RBRACK, Tok TOK_GETS, TNum 1, Tok TOK_END]"

definition ex_if_program :: "Token list" where
  "ex_if_program =
     [Tok TOK_PROGRAM, TId ''C'', Tok TOK_BEGIN,
      Tok TOK_IF, Tok TOK_TRUE, Tok TOK_THEN, Tok TOK_CHILL,
      Tok TOK_ELSIF, Tok TOK_FALSE, Tok TOK_THEN, Tok TOK_CHILL,
      Tok TOK_ELSIF, Tok TOK_TRUE, Tok TOK_THEN, Tok TOK_CHILL,
      Tok TOK_ELSE, Tok TOK_CHILL, Tok TOK_END, Tok TOK_END]"

definition eoutcome :: "eres \<Rightarrow> error + (ValType \<times> emitted list \<times> TokenType)" where
  "eoutcome r = map_sum id (\<lambda>(t, s). (t, code s, token_type s)) r"

section \<open>Invariants of a run of the parser\<close>

text \<open>
  A relation between the state before and the state after a parsing routine is kept by
  every routine of the statement and expression level when it is reflexive and transitive
  and is kept by the four ways in which these routines change the state: an instruction is
  emitted, the next token is read, the symbol table is replaced, a label is drawn.
  \<open>frames_e\<close> and \<open>frames_s\<close> say that a routine keeps the relation whenever it
  returns.
\<close>

definition frame :: "(pstate \<Rightarrow> pstate \<Rightarrow> bool) \<Rightarrow> bool" where
  "frame R \<longleftrightarrow>
     (\<forall>s. R s s) \<and> (\<forall>a b c. R a b \<and> R b c \<longrightarrow> R a c) \<and>
     (\<forall>s e. R s (emit e s)) \<and> (\<forall>s. R s (get_token s)) \<and>
     (\<forall>s st. R s (s\<lparr>syms := st\<rparr>)) \<and> (\<forall>s l. R s (s\<lparr>next_label := l\<rparr>))"

definition frames_e :: "(pstate \<Rightarrow> pstate \<Rightarrow> bool) \<Rightarrow> (pstate \<Rightarrow> error + ('a \<times> pstate)) \<Rightarrow> bool" where
  "frames_e R f \<longleftrightarrow> (\<forall>a t b s. f a = Inr (t, b) \<longrightarrow> R s a \<longrightarrow> R s b)"

definition frames_s :: "(pstate \<Rightarrow> pstate \<Rightarrow> bool) \<Rightarrow> (pstate \<Rightarrow> error + pstate) \<Rightarrow> bool" where
  "frames_s R f \<longleftrightarrow> (\<forall>a b s. f a = Inr b \<longrightarrow> R s a \<longrightarrow> R s b)"

text \<open>
  Two such relations: the emitted code only grows, and the return type of the subroutine
  being compiled stays the same.  \<open>emitted_by s s'\<close> is what was emitted between
  the two states.
\<close>

definition code_grows :: "pstate \<Rightarrow> pstate \<Rightarrow> bool" where
  "code_grows s s' \<longleftrightarrow> take (length (code s)) (code s') = code s"

definition same_return_type :: "pstate \<Rightarrow> pstate \<Rightarrow> bool" where
  "same_return_type s s' \<longleftrightarrow> return_type s' = return_type s"

definition emitted_by :: "pstate \<Rightarrow> pstate \<Rightarrow> emitted list" where
  "emitted_by s s' = drop (length (code s)) (code s')"

text \<open>
  \<^verbatim>\<open>parse_program\<close> up to its call of \<^verbatim>\<open>parse_body\<close> for the main body: the
  header, all the subroutine definitions, and \<^verbatim>\<open>init_subroutine_codegen("main", NULL)\<close>.
\<close>

definition main_body_entry :: "nat \<Rightarrow> pstate \<Rightarrow> sres" where
  "main_body_entry n s =
     then_do (expect TOK_PROGRAM s) (\<lambda>s.
     then_do (expect_id s) (\<lambda>(class_name, s).
     let s = set_class_name class_name s in
     then_do (funcdefs_loop n n s) (\<lambda>s.
       Inr (init_subroutine_codegen ''main'' None s))))"

text \<open>
  Further examples: the operands \<^verbatim>\<open>true and false\<close> and \<^verbatim>\<open>true or false\<close>, the
  programs \<^verbatim>\<open>program C begin boolean b; b <- true and false end\<close> and
  \<^verbatim>\<open>program P begin exit 1 end\<close>, and the state of the parser at the \<^verbatim>\<open>exit\<close> of the
  latter.
\<close>

definition ex_and :: pstate where
  "ex_and = get_token (initial_state [Tok TOK_TRUE, Tok TOK_AND, Tok TOK_FALSE])"

definition ex_or :: pstate where
  "ex_or = get_token (initial_state [Tok TOK_TRUE, Tok TOK_OR, Tok TOK_FALSE])"

definition ex_and_program :: "Token list" where
  "ex_and_program =
     [Tok TOK_PROGRAM, TId ''C'', Tok TOK_BEGIN, Tok TOK_BOOLEAN, TId ''b'', Tok TOK_SEMICOLON,
      TId ''b'', Tok TOK_GETS, Tok TOK_TRUE, Tok TOK_AND, Tok TOK_FALSE, Tok TOK_END]"

definition ex_exit_program :: "Token list" where
  "ex_exit_program =
     [Tok TOK_PROGRAM, TId ''P'', Tok TOK_BEGIN, Tok TOK_EXIT, TNum 1, Tok TOK_END]"

definition state_after :: "eres \<Rightarrow> pstate" where
  "state_after r = (case r of Inl e \<Rightarrow> initial_state [] | Inr (t, s) \<Rightarrow> s)"

definition the_state :: "sres \<Rightarrow> pstate" where
  "the_state r = (case r of Inl e \<Rightarrow> initial_state [] | Inr s \<Rightarrow> s)"

definition ex_exit_state :: pstate where
  "ex_exit_state =
     the_state (then_do (main_body_entry 3 (get_token (initial_state ex_exit_program)))
                  (expect TOK_BEGIN))"

text \<open>
  The main body as the specification describes it.  \<open>exit_without_subroutine\<close> reads the
  \<^verbatim>\<open>exit\<close> token and emits \<^verbatim>\<open>RETURN\<close> only if no expression follows; it looks at no return
  type, parses no expression and raises no error of its own.  \<open>main_statement\<close> is the
  statement parser with this in the place of \<^verbatim>\<open>parse_exit\<close>, at every depth of nesting, and
  \<open>main_body\<close> and \<open>main_program\<close> are \<^verbatim>\<open>parse_body\<close> and \<^verbatim>\<open>parse_program\<close> with
  \<open>main_statement\<close> for the statements of the main body.  They are compared with the
  parser of the source below.
\<close>

definition exit_without_subroutine :: "pstate \<Rightarrow> sres" where
  "exit_without_subroutine s =
     then_do (expect TOK_EXIT s) (\<lambda>s.
       if STARTS_EXPR (token_type s) then Inr s else Inr (gen_1 JVM_RETURN s))"

definition main_statement_body :: "(pstate \<Rightarrow> sres) \<Rightarrow> nat \<Rightarrow> pstate \<Rightarrow> sres" where
  "main_statement_body main_statement n s =
     (case token_type s of
        TOK_EXIT \<Rightarrow> exit_without_subroutine s
      | TOK_IF \<Rightarrow> parse_if_body (parse_statements_body main_statement n) n s
      | TOK_ID \<Rightarrow> parse_name n s
      | TOK_READ \<Rightarrow> parse_read n s
      | TOK_WHILE \<Rightarrow> parse_while_body (parse_statements_body main_statement n) n s
      | TOK_WRITE \<Rightarrow> parse_write n s
      | _ \<Rightarrow> Inl (ERR_STATEMENT_EXPECTED (token_type s)))"

primrec main_statement :: "nat \<Rightarrow> pstate \<Rightarrow> sres" where
  "main_statement 0 s = Inl OUT_OF_FUEL"
| "main_statement (Suc n) s = main_statement_body (main_statement n) n s"

definition main_statements :: "nat \<Rightarrow> pstate \<Rightarrow> sres" where
  "main_statements n = parse_statements_body (main_statement n) n"

definition main_body :: "nat \<Rightarrow> pstate \<Rightarrow> sres" where
  "main_body n s =
     then_do (expect TOK_BEGIN s) (\<lambda>s.
     then_do (vardefs_loop n n s) (\<lambda>s.
     then_do (main_statements n s) (\<lambda>s.
       expect TOK_END s)))"

definition main_program :: "nat \<Rightarrow> pstate \<Rightarrow> sres" where
  "main_program n s =
     then_do (main_body_entry n s) (\<lambda>s.
     then_do (main_body n s) (\<lambda>s.
     let s = gen_1 JVM_RETURN s in
     Inr (close_subroutine_codegen (get_variables_width (syms s)) s)))"

text \<open>
  \<^verbatim>\<open>program P define f() -> integer begin exit 1 end begin while true do exit 1 end end\<close>,
  and the state of the parser at the \<^verbatim>\<open>exit\<close> inside the loop of its main body.
\<close>

definition ex_nested_exit_program :: "Token list" where
  "ex_nested_exit_program =
     [Tok TOK_PROGRAM, TId ''P'',
      Tok TOK_DEFINE, TId ''f'', Tok TOK_LPAR, Tok TOK_RPAR, Tok TOK_TO, Tok TOK_INTEGER,
      Tok TOK_BEGIN, Tok TOK_EXIT, TNum 1, Tok TOK_END,
      Tok TOK_BEGIN, Tok TOK_WHILE, Tok TOK_TRUE, Tok TOK_DO, Tok TOK_EXIT, TNum 1,
      Tok TOK_END, Tok TOK_END]"

definition ex_nested_exit_state :: pstate where
  "ex_nested_exit_state =
     the_state
       (then_do (main_body_entry 4 (get_token (initial_state ex_nested_exit_program))) (\<lambda>s.
        then_do (expect TOK_BEGIN s) (\<lambda>s.
        let (l1, s) = get_label s;
            (l2, s) = get_label s
        in then_do (expect TOK_WHILE s) (\<lambda>s.
           let s = gen_label l1 s in
           then_do (parse_expr 4 s) (\<lambda>(t1, s).
           let s = gen_2_label JVM_IFEQ l2 s in
           then_do (check_types t1 TYPE_BOOLEAN s) (\<lambda>s.
             expect TOK_DO s))))))"

text \<open>
  The symbol table along
  \<^verbatim>\<open>program P define f(integer a) begin chill end begin integer b; b <- 1 end\<close>: the
  subroutine \<open>f\<close> with its parameter \<open>a\<close>, then \<open>f\<close> closed, then the variable
  \<open>b\<close> of the main body.
\<close>

definition ex_sub :: symtab where
  "ex_sub = state_of (insert_name
     (state_of (open_subroutine (init_symbol_table symtab0) ''f'' ex_proc)) ''a'' ex_var)"

definition ex_closed :: symtab where
  "ex_closed = (case close_subroutine ex_sub of Inl e \<Rightarrow> symtab0 | Inr st \<Rightarrow> st)"

definition ex_main :: symtab where
  "ex_main = state_of (insert_name ex_closed ''b'' ex_var)"

definition ex_slot_program :: "Token list" where
  "ex_slot_program =
     [Tok TOK_PROGRAM, TId ''P'',
      Tok TOK_DEFINE, TId ''f'', Tok TOK_LPAR, Tok TOK_INTEGER, TId ''a'', Tok TOK_RPAR,
      Tok TOK_BEGIN, Tok TOK_CHILL, Tok TOK_END,
      Tok TOK_BEGIN, Tok TOK_INTEGER, TId ''b'', Tok TOK_SEMICOLON,
      TId ''b'', Tok TOK_GETS, TNum 1, Tok TOK_END]"

section \<open>Properties of the number scanner\<close>

lemma digit_of_range: "isdigit c \<Longrightarrow> 0 \<le> digit_of c \<and> digit_of c \<le> 9"
  by (auto simp: isdigit_def digit_of_def)

lemma decimal_from_mono:
  "0 \<le> n \<Longrightarrow> \<forall>c \<in> set ds. isdigit c \<Longrightarrow> n \<le> decimal_from n ds"
proof (induction ds arbitrary: n)
  case Nil
  then show ?case by (simp add: decimal_from_def)
next
  case (Cons c ds)
  have d: "0 \<le> digit_of c" using Cons.prems digit_of_range by simp
  have "10 * n + digit_of c \<le> decimal_from (10 * n + digit_of c) ds"
    using Cons.IH [of "10 * n + digit_of c"] Cons.prems d by simp
  then show ?case using Cons.prems d by (simp add: decimal_from_def)
qed

lemma too_large_test:
  assumes "0 \<le> d" "d \<le> 9" "0 \<le> n"
  shows "n > (INT_MAX - d) sdiv 10 \<longleftrightarrow> 10 * n + d > INT_MAX"
proof -
  have "(INT_MAX - d) sdiv 10 = (INT_MAX - d) div 10"
    using assms by (simp add: signed_divide_int_def INT_MAX_def sgn_if)
  then show ?thesis using assms by (simp add: INT_MAX_def) linarith
qed

lemma number_loop_decimal:
  assumes "\<forall>c \<in> set ds. isdigit c" "rest = [] \<or> \<not> isdigit (hd rest)" "0 \<le> n" "n \<le> INT_MAX"
  shows "number_loop n (ds @ rest) =
     (if decimal_from n ds \<le> INT_MAX then Inr (decimal_from n ds, rest)
      else Inl NUMBER_TOO_LARGE)"
  using assms
proof (induction ds arbitrary: n)
  case Nil
  then show ?case by (cases rest) (auto simp: decimal_from_def)
next
  case (Cons c ds)
  let ?d = "int (of_char c) - int (of_char (CHR ''0''))"
  have dd: "?d = digit_of c" by (simp add: digit_of_def)
  have dr: "0 \<le> digit_of c" "digit_of c \<le> 9" using Cons.prems digit_of_range by auto
  have step: "decimal_from n (c # ds) = decimal_from (10 * n + digit_of c) ds"
    by (simp add: decimal_from_def)
  show ?case
  proof (cases "10 * n + digit_of c > INT_MAX")
    case True
    have "10 * n + digit_of c \<le> decimal_from (10 * n + digit_of c) ds"
      using decimal_from_mono [of "10 * n + digit_of c" ds] Cons.prems dr by simp
    then have "\<not> decimal_from n (c # ds) \<le> INT_MAX" using True step by simp
    moreover have "n > (INT_MAX - digit_of c) sdiv 10"
      using too_large_test [OF dr Cons.prems(3)] True by simp
    ultimately show ?thesis using Cons.prems dd by (simp add: Let_def)
  next
    case False
    have nt: "\<not> n > (INT_MAX - digit_of c) sdiv 10"
      using too_large_test [OF dr Cons.prems(3)] False by simp
    have rng: "in_int_range (10 * n)" "in_int_range (10 * n + digit_of c)"
      using False dr Cons.prems(3) by (auto simp: in_int_range_def INT_MIN_def INT_MAX_def)
    have "number_loop n ((c # ds) @ rest) = number_loop (10 * n + digit_of c) (ds @ rest)"
      using Cons.prems nt rng dd by (simp add: Let_def)
    also have "\<dots> = (if decimal_from (10 * n + digit_of c) ds \<le> INT_MAX
        then Inr (decimal_from (10 * n + digit_of c) ds, rest) else Inl NUMBER_TOO_LARGE)"
      using Cons.IH [of "10 * n + digit_of c"] Cons.prems False dr by simp
    finally show ?thesis using step by simp
  qed
qed

text \<open>
  Claim C8.  For a string of decimal digits followed by the end of the input or by a
  character that is not a digit, \<^verbatim>\<open>process_number\<close> returns a \<^verbatim>\<open>TOK_NUM\<close> token
  carrying the decimal value of the digits when that value is at most \<open>2^31 - 1\<close>, and
  stops with the fatal error "number too large" when the value is greater.  Both
  outcomes exclude \<open>SIGNED_OVERFLOW\<close>: no product or sum of the loop leaves the
  range of \<^verbatim>\<open>int\<close>.
\<close>

theorem process_number_decimal:
  assumes "\<forall>c \<in> set ds. isdigit c" and "rest = [] \<or> \<not> isdigit (hd rest)"
  shows "process_number tok (ds @ rest) =
     (if decimal_value ds \<le> 2 ^ 31 - 1
      then Inr (tok\<lparr>tvalue := decimal_value ds, ttype := TOK_NUM\<rparr>, rest)
      else Inl NUMBER_TOO_LARGE)"
proof -
  have "number_loop 0 (ds @ rest) =
     (if decimal_from 0 ds \<le> INT_MAX then Inr (decimal_from 0 ds, rest)
      else Inl NUMBER_TOO_LARGE)"
    using number_loop_decimal [of ds rest 0] assms by (simp add: INT_MAX_def)
  then show ?thesis
    by (simp add: process_number_def decimal_value_def INT_MAX_def)
qed

theorem process_number_decimal_witness:
  "process_number \<lparr>ttype = TOK_EOF, tvalue = 0, tlexeme = [], tstring = []\<rparr>
        (''2147483647'' @ '';'')
       = Inr (\<lparr>ttype = TOK_NUM, tvalue = 2147483647, tlexeme = [], tstring = []\<rparr>, '';'')
   \<and> process_number \<lparr>ttype = TOK_EOF, tvalue = 0, tlexeme = [], tstring = []\<rparr>
        (''2147483648'' @ '';'') = Inl NUMBER_TOO_LARGE"
proof -
  have a: "\<forall>c \<in> set ''2147483647''. isdigit c" by (simp add: isdigit_def)
  have b: "\<forall>c \<in> set ''2147483648''. isdigit c" by (simp add: isdigit_def)
  have r: "'';'' = [] \<or> \<not> isdigit (hd '';'')" by (simp add: isdigit_def)
  have va: "decimal_value ''2147483647'' = 2147483647"
    by (simp add: decimal_value_def decimal_from_def digit_of_def)
  have vb: "decimal_value ''2147483648'' = 2147483648"
    by (simp add: decimal_value_def decimal_from_def digit_of_def)
  show ?thesis
    using process_number_decimal [OF a r, of "\<lparr>ttype = TOK_EOF, tvalue = 0, tlexeme = [], tstring = []\<rparr>"]
      process_number_decimal [OF b r, of "\<lparr>ttype = TOK_EOF, tvalue = 0, tlexeme = [], tstring = []\<rparr>"]
    by (simp only: va vb) simp
qed


section \<open>The search for reserved words\<close>

text \<open>
  Claim C5, at the failing input \<open>x\<close>.  The search starts with \<^verbatim>\<open>high\<close> at the number
  of reserved words, 23, one past the last index.  For the word \<open>x\<close>, which sorts after
  every reserved word, it reads \<^verbatim>\<open>reserved[11]\<close>, \<^verbatim>\<open>reserved[17]\<close>, \<^verbatim>\<open>reserved[20]\<close>,
  \<^verbatim>\<open>reserved[22]\<close> and then \<^verbatim>\<open>reserved[23]\<close>, outside the array.
\<close>

theorem process_word_out_of_bounds:
  "process_word (Suc m) tok ''x'' = Inl (INDEX_OUT_OF_BOUNDS 23)
   \<and> NUM_RESERVED_WORDS = 23"
proof -
  have a: "isalpha (CHR ''x'')" by (simp add: isalpha_def)
  have s: "search_loop ''x'' 0 11 23 = Inl (INDEX_OUT_OF_BOUNDS 23)"
    by code_simp
  have n: "NUM_RESERVED_WORDS = 23" by (simp add: NUM_RESERVED_WORDS_def reserved_def)
  show ?thesis by (simp add: process_word_def a s n)
qed

section \<open>Properties of the hash table\<close>

lemma strcmp_eq_0: "strcmp a b = 0 \<longleftrightarrow> a = b"
  by (induction a b rule: strcmp.induct) auto

lemma chain_search_map_of: "chain_search b key = map_of b key"
  by (induction b) (auto simp: key_strcmp_def strcmp_eq_0)

lemma buckets_ok_nth:
  "buckets_ok t n \<Longrightarrow> i < n \<Longrightarrow> e \<in> set (t ! i) \<Longrightarrow> shift_hash (fst e) n = i"
  unfolding buckets_ok_def list_all_iff
  by (auto simp: in_set_enumerate_eq dest!: bspec [where x = "(i, t ! i)"])


lemma map_of_concat_bucket:
  assumes "k < length t" "\<And>i e. i < length t \<Longrightarrow> e \<in> set (t ! i) \<Longrightarrow> fst e = key \<Longrightarrow> i = k"
  shows "map_of (concat t) key = map_of (t ! k) key"
  using assms
proof (induction t arbitrary: k)
  case Nil
  then show ?case by simp
next
  case (Cons b t)
  show ?case
  proof (cases k)
    case 0
    have "map_of (concat t) key = None"
    proof (rule ccontr)
      assume "map_of (concat t) key \<noteq> None"
      then obtain v where "(key, v) \<in> set (concat t)" by (auto dest: map_of_SomeD)
      then obtain c where "c \<in> set t" "(key, v) \<in> set c" by auto
      then obtain i where "i < length t" "(key, v) \<in> set (t ! i)"
        by (metis in_set_conv_nth)
      then have "Suc i = k" using Cons.prems(2) [of "Suc i" "(key, v)"] by simp
      then show False using 0 by simp
    qed
    then show ?thesis using 0 by (simp add: map_add_def split: option.splits)
  next
    case (Suc j)
    have nb: "map_of b key = None"
    proof (rule ccontr)
      assume "map_of b key \<noteq> None"
      then obtain v where "(key, v) \<in> set b" by (auto dest: map_of_SomeD)
      then have "0 = k" using Cons.prems(2) [of 0 "(key, v)"] by simp
      then show False using Suc by simp
    qed
    have "map_of (concat t) key = map_of (t ! j) key"
    proof (rule Cons.IH)
      show "j < length t" using Cons.prems(1) Suc by simp
      fix i e assume "i < length t" "e \<in> set (t ! i)" "fst e = key"
      then have "Suc i = k" using Cons.prems(2) [of "Suc i" e] by simp
      then show "i = j" using Suc by simp
    qed
    then show ?thesis using Suc nb by (simp add: map_add_def split: option.splits)
  qed
qed

lemma shift_hash_less: "0 < n \<Longrightarrow> shift_hash key n < n"
  by (simp add: shift_hash_def)

lemma ht_ok_size_pos: "ht_ok ht \<Longrightarrow> 0 < ht_size ht"
  by (auto simp: ht_ok_def)

lemma ht_search_lookup:
  assumes "ht_ok ht"
  shows "ht_search ht key = ht_lookup ht key"
proof -
  let ?n = "ht_size ht" and ?t = "ht_table ht"
  have b: "buckets_ok ?t ?n" and len: "length ?t = ?n" and pos: "0 < ?n"
    using assms by (auto simp: ht_ok_def buckets_ok_def)
  let ?k = "shift_hash key ?n"
  have k: "?k < length ?t" using len pos by (simp add: shift_hash_less)
  have "map_of (concat ?t) key = map_of (?t ! ?k) key"
  proof (rule map_of_concat_bucket [OF k])
    fix i e assume "i < length ?t" "e \<in> set (?t ! i)" "fst e = key"
    then show "i = ?k" using buckets_ok_nth [OF b, of i e] len by simp
  qed
  then show ?thesis
    by (simp add: ht_search_def ht_lookup_def ht_entries_def chain_search_map_of Let_def)
qed












lemma chain_has_key:
  "(\<exists>q \<in> set b. key_strcmp (fst q) key = 0) \<longleftrightarrow> map_of b key \<noteq> None"
  by (auto simp: key_strcmp_def strcmp_eq_0 map_of_eq_None_iff image_iff)

lemma bucket_lookup:
  assumes "ht_ok ht"
  shows "map_of (ht_table ht ! shift_hash key (ht_size ht)) key = ht_lookup ht key"
  using ht_search_lookup [OF assms, of key]
  by (simp add: ht_search_def chain_search_map_of Let_def)

lemma ht_insert_exists:
  assumes "ht_ok ht" "ht_lookup ht key \<noteq> None"
  shows "ht_insert ht key v = Inr (HASH_TABLE_KEY_VALUE_PAIR_EXISTS, ht)"
  using assms bucket_lookup [OF assms(1), of key]
  by (simp add: ht_insert_def Let_def chain_has_key)




section \<open>Properties of the symbol table\<close>

lemma find_name_visible:
  assumes "st_ok st"
  shows "find_name st n = Inr (visible st n)"
proof -
  obtain t where t: "ht_at st (table st) = Inr t" "ht_ok t"
    using assms by (auto simp: st_ok_def split: sum.splits)
  show ?thesis
  proof (cases "saved_table st")
    case None
    then show ?thesis
      using t by (simp add: find_name_def visible_def active_scope_def global_scope_def
          ht_search_lookup split: option.splits)
  next
    case (Some g)
    then obtain s where s: "ht_at st (Some g) = Inr s" "ht_ok s"
      using assms by (auto simp: st_ok_def split: sum.splits)
    show ?thesis
      using t s Some by (simp add: find_name_def visible_def active_scope_def global_scope_def
          ht_search_lookup split: option.splits)
  qed
qed



text \<open>
  Claim C2.  In a well-formed state with an open subroutine, \<^verbatim>\<open>find_name\<close> returns the
  entry of the active scope when the name is there; otherwise it returns the entry of
  the global scope when that entry is callable, and nothing when the entry is not
  callable or there is none.  So it succeeds on every callable of the global scope and
  fails on every variable of the global scope that the active scope does not have.
\<close>

theorem find_name_scopes:
  assumes "st_ok st" and "subroutine_open st"
  shows "find_name st n =
           Inr (case active_scope st n of
                  Some p \<Rightarrow> Some p
                | None \<Rightarrow>
                    (case global_scope st n of
                       None \<Rightarrow> None
                     | Some p \<Rightarrow> if IS_CALLABLE_TYPE (type p) then Some p else None))
     \<and> (\<forall>p. global_scope st n = Some p \<and> IS_CALLABLE_TYPE (type p)
            \<longrightarrow> (\<exists>q. find_name st n = Inr (Some q)))
     \<and> (\<forall>p. global_scope st n = Some p \<and> \<not> IS_CALLABLE_TYPE (type p)
              \<and> active_scope st n = None
            \<longrightarrow> find_name st n = Inr None)"
  using find_name_visible [OF assms(1), of n]
  by (auto simp: visible_def split: option.splits)

lemma ex_local_ok: "st_ok ex_local \<and> subroutine_open ex_local"
proof -
  have "saved_table ex_local = Some 0" "table ex_local = Some 1" by code_simp+
  moreover have "st_ok ex_local" by code_simp
  ultimately show ?thesis by (simp add: subroutine_open_def)
qed

theorem find_name_scopes_witness:
  "find_name ex_local ''a'' = Inr (Some (ex_var\<lparr>offset := 1\<rparr>))
   \<and> find_name ex_local ''f'' = Inr (Some ex_proc)
   \<and> find_name ex_local ''v'' = Inr None
   \<and> global_scope ex_local ''v'' = Some (ex_var\<lparr>offset := 1\<rparr>)"
proof -
  have ok: "st_ok ex_local" "subroutine_open ex_local" using ex_local_ok by auto
  have a: "active_scope ex_local ''a'' = Some (ex_var\<lparr>offset := 1\<rparr>)" by code_simp
  have f: "active_scope ex_local ''f'' = None" "global_scope ex_local ''f'' = Some ex_proc"
    by code_simp+
  have v: "active_scope ex_local ''v'' = None"
    "global_scope ex_local ''v'' = Some (ex_var\<lparr>offset := 1\<rparr>)"
    by code_simp+
  have c: "IS_CALLABLE_TYPE (type ex_proc)" "\<not> IS_CALLABLE_TYPE (type (ex_var\<lparr>offset := 1\<rparr>))"
    by code_simp+
  show ?thesis
    using find_name_scopes [OF ok, of "''a''"] find_name_scopes [OF ok, of "''f''"]
      find_name_scopes [OF ok, of "''v''"] a f v c
    by simp
qed









section \<open>The parser on the example programs\<close>

text \<open>
  Claim C3, at a failing input.  On the tokens \<^verbatim>\<open>- 1 + 2\<close> \<^verbatim>\<open>parse_simple\<close> parses and
  negates the term \<^verbatim>\<open>1\<close> and returns with \<^verbatim>\<open>+\<close> as the lookahead token: the branch
  of the unary minus has no loop over the following terms.  The program
  \<^verbatim>\<open>program C begin integer b; b <- - 1 + 2 end\<close> is rejected: \<^verbatim>\<open>end\<close> is expected
  where the \<^verbatim>\<open>+\<close> stands.
\<close>

theorem parse_simple_minus_stops:
  "eoutcome (parse_simple 3 (get_token (initial_state [Tok TOK_MINUS, TNum 1, Tok TOK_PLUS, TNum 2])))
     = Inr (TYPE_INTEGER, [GEN_2 JVM_LDC 1, GEN_1 JVM_INEG], TOK_PLUS)
   \<and> outcome (compile 4 ex_minus_program) = Inl (ERR_EXPECT TOK_END TOK_PLUS)"
  by code_simp

text \<open>
  Claim C4, at a failing input.  For the assignment \<^verbatim>\<open>a[i] <- 1\<close>, with \<^verbatim>\<open>a\<close> an
  integer array in slot 1 and \<^verbatim>\<open>i\<close> an integer in slot 2, the emitted sequence loads
  \<^verbatim>\<open>i\<close>, pushes 1 and stores into an array, with no \<^verbatim>\<open>ALOAD\<close> of the array before
  the index.  For \<^verbatim>\<open>a[0] <- 1\<close>, whose index begins with a number, the \<^verbatim>\<open>ALOAD\<close> is
  there.
\<close>

theorem parse_index_no_aload:
  "outcome (compile 4 (ex_index_program (TId ''i'')))
     = Inr ([SET_CLASS_NAME ''C'', INIT_SUBROUTINE ''main'' None,
             GEN_2 JVM_ILOAD 2, GEN_2 JVM_LDC 1, GEN_1 JVM_IASTORE,
             GEN_1 JVM_RETURN, CLOSE_SUBROUTINE 3], TOK_EOF)
   \<and> outcome (compile 4 (ex_index_program (TNum 0)))
     = Inr ([SET_CLASS_NAME ''C'', INIT_SUBROUTINE ''main'' None,
             GEN_2 JVM_ALOAD 1, GEN_2 JVM_LDC 0, GEN_2 JVM_LDC 1, GEN_1 JVM_IASTORE,
             GEN_1 JVM_RETURN, CLOSE_SUBROUTINE 3], TOK_EOF)"
  by code_simp

text \<open>
  Claim C1, at a failing input.  For an \<^verbatim>\<open>if\<close> with two \<^verbatim>\<open>elsif\<close> clauses and an
  \<^verbatim>\<open>else\<close>, with labels 0, 1 and 2: the first guard branches to label 0, placed before
  the first \<^verbatim>\<open>elsif\<close>.  The guard of each \<^verbatim>\<open>elsif\<close> branches to label 1, which is
  placed before that same guard and not at the next alternative, and label 1 is placed
  twice.
\<close>

theorem parse_if_elsif_labels:
  "outcome (compile 5 ex_if_program)
     = Inr ([SET_CLASS_NAME ''C'', INIT_SUBROUTINE ''main'' None,
             GEN_2 JVM_LDC 1, GEN_2_LABEL JVM_IFEQ 0, GEN_2_LABEL JVM_GOTO 2,
             GEN_LABEL 0,
             GEN_LABEL 1, GEN_2 JVM_LDC 0, GEN_2_LABEL JVM_IFEQ 1, GEN_2_LABEL JVM_GOTO 2,
             GEN_LABEL 1, GEN_2 JVM_LDC 1, GEN_2_LABEL JVM_IFEQ 1, GEN_2_LABEL JVM_GOTO 2,
             GEN_LABEL 2,
             GEN_1 JVM_RETURN, CLOSE_SUBROUTINE 1], TOK_EOF)"
  by code_simp


section \<open>What every parsing routine keeps\<close>

lemma frames_eI: "(\<And>a t b s. f a = Inr (t, b) \<Longrightarrow> R s a \<Longrightarrow> R s b) \<Longrightarrow> frames_e R f"
  unfolding frames_e_def by blast

lemma frames_eD: "frames_e R f \<Longrightarrow> f a = Inr (t, b) \<Longrightarrow> R s a \<Longrightarrow> R s b"
  unfolding frames_e_def by blast

lemma frames_sI: "(\<And>a b s. f a = Inr b \<Longrightarrow> R s a \<Longrightarrow> R s b) \<Longrightarrow> frames_s R f"
  unfolding frames_s_def by blast

lemma frames_sD: "frames_s R f \<Longrightarrow> f a = Inr b \<Longrightarrow> R s a \<Longrightarrow> R s b"
  unfolding frames_s_def by blast

lemma frame_refl: "frame R \<Longrightarrow> R a a"
  by (simp add: frame_def)

lemma frame_emit: "frame R \<Longrightarrow> R a b \<Longrightarrow> R a (emit e b)"
  unfolding frame_def by blast

lemma frame_get_token: "frame R \<Longrightarrow> R a b \<Longrightarrow> R a (get_token b)"
  unfolding frame_def by blast

lemma frame_syms: "frame R \<Longrightarrow> R a b \<Longrightarrow> R a (b\<lparr>syms := st\<rparr>)"
  unfolding frame_def by blast

lemma frame_label: "frame R \<Longrightarrow> R a b \<Longrightarrow> R a (b\<lparr>next_label := l\<rparr>)"
  unfolding frame_def by blast

lemmas frame_intros = frame_emit frame_get_token frame_syms frame_label

lemmas gen_defs = gen_1_def gen_2_def gen_2_label_def gen_label_def gen_cmp_def gen_call_def
  gen_newarray_def gen_print_def gen_print_string_def gen_read_def set_class_name_def
  init_subroutine_codegen_def close_subroutine_codegen_def

lemma then_doE:
  assumes "then_do m f = Inr r"
  obtains x where "m = Inr x" "f x = Inr r"
  using assms by (cases m) (auto simp: then_do_def)

lemma frame_check_types: "frame R \<Longrightarrow> check_types a b s1 = Inr s2 \<Longrightarrow> R s s1 \<Longrightarrow> R s s2"
  by (auto simp: check_types_def split: if_splits)

lemma frame_expect: "frame R \<Longrightarrow> expect t s1 = Inr s2 \<Longrightarrow> R s s1 \<Longrightarrow> R s s2"
  by (auto simp: expect_def frame_get_token split: if_splits)

lemma frame_expect_id: "frame R \<Longrightarrow> expect_id s1 = Inr (v, s2) \<Longrightarrow> R s s1 \<Longrightarrow> R s s2"
  by (auto simp: expect_id_def frame_get_token split: if_splits)

lemmas frame_elims = frame_check_types frame_expect frame_expect_id

lemma frame_parse_expr_body:
  assumes F: "frame R" and ps: "frames_e R ps"
  shows "frames_e R (parse_expr_body ps)"
proof (rule frames_eI)
  fix a t b s
  assume "parse_expr_body ps a = Inr (t, b)" "R s a"
  then show "R s b"
    unfolding parse_expr_body_def Let_def gen_defs
    by (auto elim!: then_doE split: if_splits)
      (assumption | rule frame_intros [OF F] | erule frame_elims [OF F] frames_eD [OF ps])+
qed

lemma frame_simple_loop:
  assumes F: "frame R" and pt: "frames_e R pt"
  shows "frames_e R (simple_loop pt k t0)"
proof (induction k)
  case 0
  show ?case by (rule frames_eI) simp
next
  case (Suc k)
  show ?case
  proof (rule frames_eI)
    fix a t b s
    assume "simple_loop pt (Suc k) t0 a = Inr (t, b)" "R s a"
    then show "R s b"
      unfolding simple_loop.simps Let_def gen_defs
      by (auto elim!: then_doE split: if_splits)
        (assumption | rule frame_intros [OF F]
          | erule frame_elims [OF F] frames_eD [OF pt] frames_eD [OF Suc.IH])+
  qed
qed

lemma frame_parse_simple_body:
  assumes F: "frame R" and pt: "frames_e R pt"
  shows "frames_e R (parse_simple_body pt n)"
proof (rule frames_eI)
  fix a t b s
  assume "parse_simple_body pt n a = Inr (t, b)" "R s a"
  then show "R s b"
    unfolding parse_simple_body_def Let_def gen_defs
    by (auto elim!: then_doE split: if_splits)
      (assumption | rule frame_intros [OF F]
        | erule frame_elims [OF F] frames_eD [OF pt] frames_eD [OF frame_simple_loop [OF F pt]])+
qed

lemma frame_term_loop:
  assumes F: "frame R" and pf: "frames_e R pf"
  shows "frames_e R (term_loop pf k t0)"
proof (induction k)
  case 0
  show ?case by (rule frames_eI) simp
next
  case (Suc k)
  show ?case
  proof (rule frames_eI)
    fix a t b s
    assume "term_loop pf (Suc k) t0 a = Inr (t, b)" "R s a"
    then show "R s b"
      unfolding term_loop.simps Let_def gen_defs
      by (auto elim!: then_doE split: if_splits)
        (assumption | rule frame_intros [OF F]
          | erule frame_elims [OF F] frames_eD [OF pf] frames_eD [OF Suc.IH])+
  qed
qed

lemma frame_parse_term_body:
  assumes F: "frame R" and pf: "frames_e R pf"
  shows "frames_e R (parse_term_body pf n)"
proof (rule frames_eI)
  fix a t b s
  assume "parse_term_body pf n a = Inr (t, b)" "R s a"
  then show "R s b"
    unfolding parse_term_body_def Let_def gen_defs
    by (auto elim!: then_doE split: if_splits)
      (assumption | rule frame_intros [OF F]
        | erule frame_elims [OF F] frames_eD [OF pf] frames_eD [OF frame_term_loop [OF F pf]])+
qed

lemma frame_parse_index_body:
  assumes F: "frame R" and ps: "frames_e R ps"
  shows "frames_s R (parse_index_body ps ident)"
proof (rule frames_sI)
  fix a b s
  assume "parse_index_body ps ident a = Inr b" "R s a"
  then show "R s b"
    unfolding parse_index_body_def Let_def gen_defs
    by (auto elim!: then_doE split: if_splits option.splits)
      (assumption | rule frame_intros [OF F] | erule frame_elims [OF F] frames_eD [OF ps])+
qed

lemma frame_arglist_loop:
  assumes F: "frame R" and pe: "frames_e R pe"
  shows "frames_e R (arglist_loop pe k ident prop i)"
proof (induction k arbitrary: i)
  case 0
  show ?case by (rule frames_eI) simp
next
  case (Suc k)
  show ?case
  proof (rule frames_eI)
    fix a t b s
    assume "arglist_loop pe (Suc k) ident prop i a = Inr (t, b)" "R s a"
    then show "R s b"
      unfolding arglist_loop.simps Let_def gen_defs
      by (auto elim!: then_doE split: if_splits)
        (assumption | rule frame_intros [OF F]
          | erule frame_elims [OF F] frames_eD [OF pe] frames_eD [OF Suc.IH])+
  qed
qed

lemma frame_parse_arglist_body:
  assumes F: "frame R" and pe: "frames_e R pe"
  shows "frames_s R (parse_arglist_body pe n ident)"
proof (rule frames_sI)
  fix a b s
  assume "parse_arglist_body pe n ident a = Inr b" "R s a"
  then show "R s b"
    unfolding parse_arglist_body_def Let_def gen_defs
    by (auto elim!: then_doE split: if_splits option.splits)
      (assumption | rule frame_intros [OF F]
        | erule frame_elims [OF F] frames_eD [OF pe] frames_eD [OF frame_arglist_loop [OF F pe]])+
qed

lemma frame_parse_factor_body:
  assumes F: "frame R"
    and pe: "frames_e R pe"
    and px: "\<And>v. frames_s R (px v)"
    and pa: "\<And>v. frames_s R (pa v)"
    and pf: "frames_e R pf"
  shows "frames_e R (parse_factor_body pe px pa pf)"
proof (rule frames_eI)
  fix a t b s
  assume run: "parse_factor_body pe px pa pf a = Inr (t, b)" and R: "R s a"
  show "R s b"
  proof (cases "token_type a")
    case TOK_ID
    with run R show ?thesis
      unfolding parse_factor_body_def Let_def gen_defs
      by (auto elim!: then_doE split: if_splits option.splits)
        (assumption | rule frame_intros [OF F]
          | erule frame_elims [OF F] frames_sD [OF px] frames_sD [OF pa])+
  next
    case TOK_NUM
    with run R show ?thesis
      unfolding parse_factor_body_def gen_defs
      by (auto intro: frame_intros [OF F])
  next
    case TOK_NOT
    with run R show ?thesis
      unfolding parse_factor_body_def gen_defs
      by (auto elim!: then_doE)
        (assumption | rule frame_intros [OF F] | erule frame_elims [OF F] frames_eD [OF pf])+
  next
    case TOK_TRUE
    with run R show ?thesis
      unfolding parse_factor_body_def gen_defs
      by (auto intro: frame_intros [OF F])
  next
    case TOK_FALSE
    with run R show ?thesis
      unfolding parse_factor_body_def gen_defs
      by (auto intro: frame_intros [OF F])
  next
    case TOK_LPAR
    with run R show ?thesis
      unfolding parse_factor_body_def gen_defs
      by (auto elim!: then_doE)
        (assumption | rule frame_intros [OF F] | erule frame_elims [OF F] frames_eD [OF pe])+
  qed (use run in \<open>simp_all add: parse_factor_body_def\<close>)
qed

lemma frame_parse_factor:
  assumes F: "frame R"
  shows "frames_e R (parse_factor n)"
proof (induction n)
  case 0
  show ?case by (rule frames_eI) simp
next
  case (Suc n)
  note pt = frame_parse_term_body [OF F Suc.IH]
  note ps = frame_parse_simple_body [OF F pt]
  note pe = frame_parse_expr_body [OF F ps]
  note px = frame_parse_index_body [OF F ps]
  note pa = frame_parse_arglist_body [OF F pe]
  show ?case
    unfolding parse_factor.simps Let_def
    by (rule frame_parse_factor_body [OF F pe px pa Suc.IH])
qed

lemma frame_parse_term: "frame R \<Longrightarrow> frames_e R (parse_term n)"
  unfolding parse_term_def by (intro frame_parse_term_body frame_parse_factor)

lemma frame_parse_simple: "frame R \<Longrightarrow> frames_e R (parse_simple n)"
  unfolding parse_simple_def by (intro frame_parse_simple_body frame_parse_term)

lemma frame_parse_expr: "frame R \<Longrightarrow> frames_e R (parse_expr n)"
  unfolding parse_expr_def by (intro frame_parse_expr_body frame_parse_simple)

lemma frame_parse_index: "frame R \<Longrightarrow> frames_s R (parse_index n v)"
  unfolding parse_index_def by (intro frame_parse_index_body frame_parse_simple)

lemma frame_parse_arglist: "frame R \<Longrightarrow> frames_s R (parse_arglist n v)"
  unfolding parse_arglist_def by (intro frame_parse_arglist_body frame_parse_expr)

lemma frame_parse_exit:
  assumes F: "frame R"
  shows "frames_s R (parse_exit n)"
proof (rule frames_sI)
  fix a b s
  assume "parse_exit n a = Inr b" "R s a"
  then show "R s b"
    unfolding parse_exit_def Let_def gen_defs
    by (auto elim!: then_doE split: if_splits)
      (assumption | rule frame_intros [OF F]
        | erule frame_elims [OF F] frames_eD [OF frame_parse_expr [OF F]])+
qed

lemma frame_parse_name:
  assumes F: "frame R"
  shows "frames_s R (parse_name n)"
proof (rule frames_sI)
  fix a b s
  assume "parse_name n a = Inr b" "R s a"
  then show "R s b"
    unfolding parse_name_def Let_def gen_defs
    by (auto elim!: then_doE split: if_splits option.splits)
      (assumption | rule frame_intros [OF F]
        | erule frame_elims [OF F] frames_eD [OF frame_parse_expr [OF F]]
            frames_eD [OF frame_parse_simple [OF F]]
            frames_sD [OF frame_parse_index [OF F]]
            frames_sD [OF frame_parse_arglist [OF F]])+
qed

lemma frame_parse_read:
  assumes F: "frame R"
  shows "frames_s R (parse_read n)"
proof (rule frames_sI)
  fix a b s
  assume "parse_read n a = Inr b" "R s a"
  then show "R s b"
    unfolding parse_read_def Let_def gen_defs
    by (auto elim!: then_doE split: if_splits option.splits)
      (assumption | rule frame_intros [OF F]
        | erule frame_elims [OF F] frames_sD [OF frame_parse_index [OF F]])+
qed

lemma frame_write_loop:
  assumes F: "frame R"
  shows "frames_s R (write_loop n k)"
proof (induction k)
  case 0
  show ?case by (rule frames_sI) simp
next
  case (Suc k)
  show ?case
  proof (rule frames_sI)
    fix a b s
    assume "write_loop n (Suc k) a = Inr b" "R s a"
    then show "R s b"
      unfolding write_loop.simps Let_def gen_defs
      by (auto elim!: then_doE split: if_splits)
        (assumption | rule frame_intros [OF F]
          | erule frame_elims [OF F] frames_eD [OF frame_parse_expr [OF F]] frames_sD [OF Suc.IH])+
  qed
qed

lemma frame_parse_write:
  assumes F: "frame R"
  shows "frames_s R (parse_write n)"
proof (rule frames_sI)
  fix a b s
  assume "parse_write n a = Inr b" "R s a"
  then show "R s b"
    unfolding parse_write_def Let_def gen_defs
    by (auto elim!: then_doE split: if_splits)
      (assumption | rule frame_intros [OF F]
        | erule frame_elims [OF F] frames_eD [OF frame_parse_expr [OF F]]
            frames_sD [OF frame_write_loop [OF F]])+
qed

lemma frame_statements_loop:
  assumes F: "frame R" and pst: "frames_s R pst"
  shows "frames_s R (statements_loop pst k)"
proof (induction k)
  case 0
  show ?case by (rule frames_sI) simp
next
  case (Suc k)
  show ?case
  proof (rule frames_sI)
    fix a b s
    assume "statements_loop pst (Suc k) a = Inr b" "R s a"
    then show "R s b"
      unfolding statements_loop.simps
      by (auto elim!: then_doE split: if_splits)
        (assumption | rule frame_intros [OF F]
          | erule frames_sD [OF pst] frames_sD [OF Suc.IH])+
  qed
qed

lemma frame_parse_statements_body:
  assumes F: "frame R" and pst: "frames_s R pst"
  shows "frames_s R (parse_statements_body pst n)"
proof (rule frames_sI)
  fix a b s
  assume "parse_statements_body pst n a = Inr b" "R s a"
  then show "R s b"
    unfolding parse_statements_body_def
    by (auto elim!: then_doE split: if_splits)
      (assumption | rule frame_intros [OF F]
        | erule frames_sD [OF pst] frames_sD [OF frame_statements_loop [OF F pst]])+
qed

lemma frame_elsif_loop:
  assumes F: "frame R" and pss: "frames_s R pss"
  shows "frames_s R (elsif_loop pss n l2 l3 k)"
proof (induction k)
  case 0
  show ?case by (rule frames_sI) simp
next
  case (Suc k)
  show ?case
  proof (rule frames_sI)
    fix a b s
    assume "elsif_loop pss n l2 l3 (Suc k) a = Inr b" "R s a"
    then show "R s b"
      unfolding elsif_loop.simps Let_def gen_defs
      by (auto elim!: then_doE split: if_splits)
        (assumption | rule frame_intros [OF F]
          | erule frame_elims [OF F] frames_eD [OF frame_parse_expr [OF F]]
              frames_sD [OF pss] frames_sD [OF Suc.IH])+
  qed
qed

lemma frame_parse_if_body:
  assumes F: "frame R" and pss: "frames_s R pss"
  shows "frames_s R (parse_if_body pss n)"
proof (rule frames_sI)
  fix a b s
  assume "parse_if_body pss n a = Inr b" "R s a"
  then show "R s b"
    unfolding parse_if_body_def Let_def gen_defs get_label_def
    by (auto elim!: then_doE split: if_splits)
      (assumption | rule frame_intros [OF F]
        | erule frame_elims [OF F] frames_eD [OF frame_parse_expr [OF F]]
            frames_sD [OF pss] frames_sD [OF frame_elsif_loop [OF F pss]])+
qed

lemma frame_parse_while_body:
  assumes F: "frame R" and pss: "frames_s R pss"
  shows "frames_s R (parse_while_body pss n)"
proof (rule frames_sI)
  fix a b s
  assume "parse_while_body pss n a = Inr b" "R s a"
  then show "R s b"
    unfolding parse_while_body_def Let_def gen_defs get_label_def
    by (auto elim!: then_doE split: if_splits)
      (assumption | rule frame_intros [OF F]
        | erule frame_elims [OF F] frames_eD [OF frame_parse_expr [OF F]]
            frames_sD [OF pss])+
qed

lemma frame_parse_statement_body:
  assumes F: "frame R" and pst: "frames_s R pst"
  shows "frames_s R (parse_statement_body pst n)"
proof (rule frames_sI)
  fix a b s
  assume run: "parse_statement_body pst n a = Inr b" and R: "R s a"
  note pss = frame_parse_statements_body [OF F pst]
  show "R s b"
  proof (cases "token_type a")
    case TOK_EXIT
    with run R show ?thesis
      by (simp add: parse_statement_body_def) (erule frames_sD [OF frame_parse_exit [OF F]])
  next
    case TOK_IF
    with run R show ?thesis
      by (simp add: parse_statement_body_def) (erule frames_sD [OF frame_parse_if_body [OF F pss]])
  next
    case TOK_ID
    with run R show ?thesis
      by (simp add: parse_statement_body_def) (erule frames_sD [OF frame_parse_name [OF F]])
  next
    case TOK_READ
    with run R show ?thesis
      by (simp add: parse_statement_body_def) (erule frames_sD [OF frame_parse_read [OF F]])
  next
    case TOK_WHILE
    with run R show ?thesis
      by (simp add: parse_statement_body_def)
        (erule frames_sD [OF frame_parse_while_body [OF F pss]])
  next
    case TOK_WRITE
    with run R show ?thesis
      by (simp add: parse_statement_body_def) (erule frames_sD [OF frame_parse_write [OF F]])
  qed (use run in \<open>simp_all add: parse_statement_body_def\<close>)
qed

lemma frame_parse_statement:
  assumes F: "frame R"
  shows "frames_s R (parse_statement n)"
proof (induction n)
  case 0
  show ?case by (rule frames_sI) simp
next
  case (Suc n)
  show ?case
    unfolding parse_statement.simps
    by (rule frame_parse_statement_body [OF F Suc.IH])
qed

lemma frame_parse_statements: "frame R \<Longrightarrow> frames_s R (parse_statements n)"
  unfolding parse_statements_def by (intro frame_parse_statements_body frame_parse_statement)

lemma frame_parse_type:
  assumes F: "frame R"
  shows "parse_type t0 s1 = Inr (t, s2) \<Longrightarrow> R s s1 \<Longrightarrow> R s s2"
  unfolding parse_type_def Let_def
  by (auto elim!: then_doE split: if_splits)
    (assumption | rule frame_intros [OF F])+

lemma frame_declare_var:
  assumes F: "frame R"
  shows "frames_s R (declare_var t1 vname)"
proof (rule frames_sI)
  fix a b s
  assume "declare_var t1 vname a = Inr b" "R s a"
  then show "R s b"
    unfolding declare_var_def Let_def
    by (auto elim!: then_doE split: if_splits option.splits)
      (assumption | rule frame_intros [OF F])+
qed

lemma frame_vardef_loop:
  assumes F: "frame R"
  shows "frames_s R (vardef_loop t1 k)"
proof (induction k)
  case 0
  show ?case by (rule frames_sI) simp
next
  case (Suc k)
  show ?case
  proof (rule frames_sI)
    fix a b s
    assume "vardef_loop t1 (Suc k) a = Inr b" "R s a"
    then show "R s b"
      unfolding vardef_loop.simps
      by (auto elim!: then_doE split: if_splits)
        (assumption | rule frame_intros [OF F]
          | erule frame_elims [OF F] frames_sD [OF frame_declare_var [OF F]] frames_sD [OF Suc.IH])+
  qed
qed

lemma frame_parse_vardef:
  assumes F: "frame R"
  shows "frames_s R (parse_vardef n)"
proof (rule frames_sI)
  fix a b s
  assume "parse_vardef n a = Inr b" "R s a"
  then show "R s b"
    unfolding parse_vardef_def
    by (auto elim!: then_doE)
      (assumption | rule frame_intros [OF F]
        | erule frame_elims [OF F] frame_parse_type [OF F] frames_sD [OF frame_declare_var [OF F]]
            frames_sD [OF frame_vardef_loop [OF F]])+
qed

lemma frame_vardefs_loop:
  assumes F: "frame R"
  shows "frames_s R (vardefs_loop n k)"
proof (induction k)
  case 0
  show ?case by (rule frames_sI) simp
next
  case (Suc k)
  show ?case
  proof (rule frames_sI)
    fix a b s
    assume "vardefs_loop n (Suc k) a = Inr b" "R s a"
    then show "R s b"
      unfolding vardefs_loop.simps
      by (auto elim!: then_doE split: if_splits)
        (assumption | erule frames_sD [OF frame_parse_vardef [OF F]] frames_sD [OF Suc.IH])+
  qed
qed

lemma frame_parse_body:
  assumes F: "frame R"
  shows "frames_s R (parse_body n)"
proof (rule frames_sI)
  fix a b s
  assume "parse_body n a = Inr b" "R s a"
  then show "R s b"
    unfolding parse_body_def
    by (auto elim!: then_doE)
      (assumption | erule frame_elims [OF F] frames_sD [OF frame_vardefs_loop [OF F]]
          frames_sD [OF frame_parse_statements [OF F]])+
qed


section \<open>Conjunction and disjunction\<close>

lemma code_grows_append: "code_grows s s' \<Longrightarrow> code s' = code s @ emitted_by s s'"
  unfolding code_grows_def emitted_by_def by (metis append_take_drop_id)

lemma code_grows_iff: "code_grows s s' \<longleftrightarrow> (\<exists>c. code s' = code s @ c)"
  unfolding code_grows_def by (metis append_take_drop_id append_eq_conv_conj)

lemma frame_code_grows: "frame code_grows"
  unfolding frame_def code_grows_iff
  by (auto simp: emit_def get_token_def split: list.splits)

lemma frame_same_return_type: "frame same_return_type"
  unfolding frame_def same_return_type_def
  by (auto simp: emit_def get_token_def split: list.splits)

lemma parse_factor_code:
  "parse_factor n s = Inr (t, s') \<Longrightarrow> code s' = code s @ emitted_by s s'"
  using frames_eD [OF frame_parse_factor [OF frame_code_grows], of n s t s' s]
    frame_refl [OF frame_code_grows]
  by (simp add: code_grows_append)

lemma parse_term_code:
  "parse_term n s = Inr (t, s') \<Longrightarrow> code s' = code s @ emitted_by s s'"
  using frames_eD [OF frame_parse_term [OF frame_code_grows], of n s t s' s]
    frame_refl [OF frame_code_grows]
  by (simp add: code_grows_append)

lemma code_get_token [simp]: "code (get_token s) = code s"
  by (simp add: get_token_def split: list.splits)

lemma emitted_by_get_token [simp]: "emitted_by (get_token s) s' = emitted_by s s'"
  by (simp add: emitted_by_def)

lemma token_type_gen_1 [simp]: "token_type (gen_1 opc s) = token_type s"
  by (simp add: gen_1_def emit_def token_type_def)

lemma code_gen_1 [simp]: "code (gen_1 opc s) = code s @ [GEN_1 opc]"
  by (simp add: gen_1_def emit_def)

lemma parse_factor_not_minus: "parse_factor n s = Inr r \<Longrightarrow> token_type s \<noteq> TOK_MINUS"
  by (cases n) (auto simp: parse_factor_body_def Let_def)

lemma parse_term_not_minus: "parse_term n s = Inr r \<Longrightarrow> token_type s \<noteq> TOK_MINUS"
  unfolding parse_term_def parse_term_body_def
  by (auto elim!: then_doE dest: parse_factor_not_minus)

lemma types_simps [simp]:
  "\<not> IS_ARRAY TYPE_BOOLEAN" "IS_MULOP TOK_AND" "IS_ADDOP TOK_OR"
  by (simp_all add: IS_ARRAY_def IS_ARRAY_TYPE_def TYPE_BOOLEAN_def TYPE_ARRAY_def
      IS_MULOP_def IS_ADDOP_def)

lemma term_loop_and:
  assumes "token_type s1 = TOK_AND" "pf (get_token s1) = Inr (TYPE_BOOLEAN, s2)"
  shows "term_loop pf (Suc k) TYPE_BOOLEAN s1 = term_loop pf k TYPE_BOOLEAN (gen_1 JVM_IAND s2)"
  using assms by (simp add: Let_def then_do_def check_types_def)

lemma simple_loop_or:
  assumes "token_type s1 = TOK_OR" "pt (get_token s1) = Inr (TYPE_BOOLEAN, s2)"
  shows "simple_loop pt (Suc k) TYPE_BOOLEAN s1 = simple_loop pt k TYPE_BOOLEAN (gen_1 JVM_IOR s2)"
  using assms by (simp add: Let_def then_do_def check_types_def)

lemma term_loop_stop: "\<not> IS_MULOP (token_type s) \<Longrightarrow> term_loop pf (Suc k) t0 s = Inr (t0, s)"
  by simp

lemma simple_loop_stop: "\<not> IS_ADDOP (token_type s) \<Longrightarrow> simple_loop pt (Suc k) t0 s = Inr (t0, s)"
  by simp

lemma parse_term_and:
  assumes n: "2 \<le> n" and e1: "parse_factor n s = Inr (TYPE_BOOLEAN, s1)"
    and op: "token_type s1 = TOK_AND"
    and e2: "parse_factor n (get_token s1) = Inr (TYPE_BOOLEAN, s2)"
    and stop: "\<not> IS_MULOP (token_type s2)"
  shows "parse_term n s = Inr (TYPE_BOOLEAN, gen_1 JVM_IAND s2)"
proof -
  obtain k where k: "n = Suc (Suc k)" using n by (metis Suc_le_D numeral_2_eq_2 Suc_le_mono)
  have "term_loop (parse_factor n) n TYPE_BOOLEAN s1 = Inr (TYPE_BOOLEAN, gen_1 JVM_IAND s2)"
    unfolding k using term_loop_and [where pf = "parse_factor (Suc (Suc k))" and ?s1.0 = s1 and ?s2.0 = s2
        and k = "Suc k", OF op e2 [unfolded k]] stop
    by (simp only: term_loop_stop token_type_gen_1 not_False_eq_True)
  then show ?thesis
    using e1 by (simp add: parse_term_def parse_term_body_def then_do_def)
qed

lemma parse_simple_or:
  assumes n: "2 \<le> n" and e1: "parse_term n s = Inr (TYPE_BOOLEAN, s1)"
    and op: "token_type s1 = TOK_OR"
    and e2: "parse_term n (get_token s1) = Inr (TYPE_BOOLEAN, s2)"
    and stop: "\<not> IS_ADDOP (token_type s2)"
  shows "parse_simple n s = Inr (TYPE_BOOLEAN, gen_1 JVM_IOR s2)"
proof -
  obtain k where k: "n = Suc (Suc k)" using n by (metis Suc_le_D numeral_2_eq_2 Suc_le_mono)
  have nm: "token_type s \<noteq> TOK_MINUS" using parse_term_not_minus [OF e1] .
  have "simple_loop (parse_term n) n TYPE_BOOLEAN s1 = Inr (TYPE_BOOLEAN, gen_1 JVM_IOR s2)"
    unfolding k using simple_loop_or [where pt = "parse_term (Suc (Suc k))" and ?s1.0 = s1 and ?s2.0 = s2
        and k = "Suc k", OF op e2 [unfolded k]] stop
    by (simp only: simple_loop_stop token_type_gen_1 not_False_eq_True)
  then show ?thesis
    using e1 nm by (simp add: parse_simple_def parse_simple_body_def then_do_def)
qed

text \<open>
  Claim C9.  When \<^verbatim>\<open>parse_term\<close> meets \<^verbatim>\<open>e1 and e2\<close> with boolean factors, and no
  further multiplicative operator follows, it returns, and the code it has emitted is the
  code of \<open>e1\<close>, then the code of \<open>e2\<close>, then the single instruction \<^verbatim>\<open>IAND\<close>:
  nothing is emitted between the operands, so no branch skips the second one.  The same
  holds for \<^verbatim>\<open>parse_simple\<close> on \<^verbatim>\<open>e1 or e2\<close> with boolean terms and \<^verbatim>\<open>IOR\<close>.  Inside a
  longer chain each round of the loop does the same: it parses the next operand and emits
  the instruction at once.
\<close>

theorem and_or_evaluate_both:
  "(2 \<le> n \<and> parse_factor n s = Inr (TYPE_BOOLEAN, s1) \<and> token_type s1 = TOK_AND
      \<and> parse_factor n (get_token s1) = Inr (TYPE_BOOLEAN, s2) \<and> \<not> IS_MULOP (token_type s2)
    \<longrightarrow> parse_term n s = Inr (TYPE_BOOLEAN, gen_1 JVM_IAND s2)
        \<and> code (gen_1 JVM_IAND s2)
            = code s @ emitted_by s s1 @ emitted_by s1 s2 @ [GEN_1 JVM_IAND])
   \<and> (2 \<le> n \<and> parse_term n s = Inr (TYPE_BOOLEAN, s1) \<and> token_type s1 = TOK_OR
      \<and> parse_term n (get_token s1) = Inr (TYPE_BOOLEAN, s2) \<and> \<not> IS_ADDOP (token_type s2)
    \<longrightarrow> parse_simple n s = Inr (TYPE_BOOLEAN, gen_1 JVM_IOR s2)
        \<and> code (gen_1 JVM_IOR s2)
            = code s @ emitted_by s s1 @ emitted_by s1 s2 @ [GEN_1 JVM_IOR])
   \<and> (token_type s1 = TOK_AND \<and> parse_factor n (get_token s1) = Inr (TYPE_BOOLEAN, s2)
    \<longrightarrow> term_loop (parse_factor n) (Suc k) TYPE_BOOLEAN s1
          = term_loop (parse_factor n) k TYPE_BOOLEAN (gen_1 JVM_IAND s2))
   \<and> (token_type s1 = TOK_OR \<and> parse_term n (get_token s1) = Inr (TYPE_BOOLEAN, s2)
    \<longrightarrow> simple_loop (parse_term n) (Suc k) TYPE_BOOLEAN s1
          = simple_loop (parse_term n) k TYPE_BOOLEAN (gen_1 JVM_IOR s2))"
proof (intro conjI impI)
  assume a: "2 \<le> n \<and> parse_factor n s = Inr (TYPE_BOOLEAN, s1) \<and> token_type s1 = TOK_AND
      \<and> parse_factor n (get_token s1) = Inr (TYPE_BOOLEAN, s2) \<and> \<not> IS_MULOP (token_type s2)"
  then show "parse_term n s = Inr (TYPE_BOOLEAN, gen_1 JVM_IAND s2)"
    by (intro parse_term_and) auto
  have "code s1 = code s @ emitted_by s s1" using a parse_factor_code by blast
  moreover have "code s2 = code s1 @ emitted_by s1 s2"
    using a parse_factor_code [of n "get_token s1" TYPE_BOOLEAN s2] by simp
  ultimately show "code (gen_1 JVM_IAND s2)
      = code s @ emitted_by s s1 @ emitted_by s1 s2 @ [GEN_1 JVM_IAND]" by simp
next
  assume a: "2 \<le> n \<and> parse_term n s = Inr (TYPE_BOOLEAN, s1) \<and> token_type s1 = TOK_OR
      \<and> parse_term n (get_token s1) = Inr (TYPE_BOOLEAN, s2) \<and> \<not> IS_ADDOP (token_type s2)"
  then show "parse_simple n s = Inr (TYPE_BOOLEAN, gen_1 JVM_IOR s2)"
    by (intro parse_simple_or) auto
  have "code s1 = code s @ emitted_by s s1" using a parse_term_code by blast
  moreover have "code s2 = code s1 @ emitted_by s1 s2"
    using a parse_term_code [of n "get_token s1" TYPE_BOOLEAN s2] by simp
  ultimately show "code (gen_1 JVM_IOR s2)
      = code s @ emitted_by s s1 @ emitted_by s1 s2 @ [GEN_1 JVM_IOR]" by simp
next
  assume "token_type s1 = TOK_AND \<and> parse_factor n (get_token s1) = Inr (TYPE_BOOLEAN, s2)"
  then show "term_loop (parse_factor n) (Suc k) TYPE_BOOLEAN s1
          = term_loop (parse_factor n) k TYPE_BOOLEAN (gen_1 JVM_IAND s2)"
    by (intro term_loop_and) auto
next
  assume "token_type s1 = TOK_OR \<and> parse_term n (get_token s1) = Inr (TYPE_BOOLEAN, s2)"
  then show "simple_loop (parse_term n) (Suc k) TYPE_BOOLEAN s1
          = simple_loop (parse_term n) k TYPE_BOOLEAN (gen_1 JVM_IOR s2)"
    by (intro simple_loop_or) auto
qed

theorem and_or_evaluate_both_witness:
  "eoutcome (parse_term 2 ex_and)
     = Inr (TYPE_BOOLEAN, [GEN_2 JVM_LDC 1, GEN_2 JVM_LDC 0, GEN_1 JVM_IAND], TOK_EOF)
   \<and> eoutcome (parse_simple 2 ex_or)
     = Inr (TYPE_BOOLEAN, [GEN_2 JVM_LDC 1, GEN_2 JVM_LDC 0, GEN_1 JVM_IOR], TOK_EOF)
   \<and> outcome (compile 3 ex_and_program)
     = Inr ([SET_CLASS_NAME ''C'', INIT_SUBROUTINE ''main'' None, GEN_2 JVM_LDC 1,
             GEN_2 JVM_LDC 0, GEN_1 JVM_IAND, GEN_2 JVM_ISTORE 1, GEN_1 JVM_RETURN,
             CLOSE_SUBROUTINE 2], TOK_EOF)"
proof -
  define a1 where "a1 = state_after (parse_factor 2 ex_and)"
  define a2 where "a2 = state_after (parse_factor 2 (get_token a1))"
  define o1 where "o1 = state_after (parse_term 2 ex_or)"
  define o2 where "o2 = state_after (parse_term 2 (get_token o1))"
  have a: "parse_factor 2 ex_and = Inr (TYPE_BOOLEAN, a1)" "token_type a1 = TOK_AND"
    "parse_factor 2 (get_token a1) = Inr (TYPE_BOOLEAN, a2)" "\<not> IS_MULOP (token_type a2)"
    unfolding a1_def a2_def by code_simp+
  have b: "parse_term 2 ex_or = Inr (TYPE_BOOLEAN, o1)" "token_type o1 = TOK_OR"
    "parse_term 2 (get_token o1) = Inr (TYPE_BOOLEAN, o2)" "\<not> IS_ADDOP (token_type o2)"
    unfolding o1_def o2_def by code_simp+
  have c: "eoutcome (Inr (TYPE_BOOLEAN, gen_1 JVM_IAND a2))
      = Inr (TYPE_BOOLEAN, [GEN_2 JVM_LDC 1, GEN_2 JVM_LDC 0, GEN_1 JVM_IAND], TOK_EOF)"
    "eoutcome (Inr (TYPE_BOOLEAN, gen_1 JVM_IOR o2))
      = Inr (TYPE_BOOLEAN, [GEN_2 JVM_LDC 1, GEN_2 JVM_LDC 0, GEN_1 JVM_IOR], TOK_EOF)"
    unfolding a1_def a2_def o1_def o2_def by code_simp+
  have d: "outcome (compile 3 ex_and_program)
     = Inr ([SET_CLASS_NAME ''C'', INIT_SUBROUTINE ''main'' None, GEN_2 JVM_LDC 1,
             GEN_2 JVM_LDC 0, GEN_1 JVM_IAND, GEN_2 JVM_ISTORE 1, GEN_1 JVM_RETURN,
             CLOSE_SUBROUTINE 2], TOK_EOF)"
    by code_simp
  have "parse_term 2 ex_and = Inr (TYPE_BOOLEAN, gen_1 JVM_IAND a2)"
    using and_or_evaluate_both [where n = 2 and s = ex_and and ?s1.0 = a1 and ?s2.0 = a2] a
    by blast
  moreover have "parse_simple 2 ex_or = Inr (TYPE_BOOLEAN, gen_1 JVM_IOR o2)"
    using and_or_evaluate_both [where n = 2 and s = ex_or and ?s1.0 = o1 and ?s2.0 = o2] b
    by blast
  ultimately show ?thesis using c d by simp
qed


section \<open>The return type in the main body\<close>

lemma parse_program_main_body:
  "parse_program n s =
     then_do (main_body_entry n s) (\<lambda>s.
     then_do (parse_body n s) (\<lambda>s.
       Inr (close_subroutine_codegen (get_variables_width (syms (gen_1 JVM_RETURN s)))
              (gen_1 JVM_RETURN s))))"
  unfolding parse_program_def main_body_entry_def Let_def
  by (auto simp: then_do_def split: sum.splits prod.splits)

lemma parse_funcdef_return_type:
  "parse_funcdef n s = Inr s' \<Longrightarrow> return_type s' = TYPE_NONE"
  unfolding parse_funcdef_def Let_def
  by (auto elim!: then_doE split: if_splits)

lemma funcdefs_loop_return_type:
  "funcdefs_loop n k s = Inr s' \<Longrightarrow> return_type s = TYPE_NONE \<Longrightarrow> return_type s' = TYPE_NONE"
proof (induction k arbitrary: s)
  case 0
  then show ?case by simp
next
  case (Suc k)
  then show ?case
    by (auto elim!: then_doE split: if_splits dest: parse_funcdef_return_type)
qed

lemma return_type_emit [simp]: "return_type (emit e s) = return_type s"
  by (simp add: emit_def)

lemma return_type_get_token [simp]: "return_type (get_token s) = return_type s"
  by (simp add: get_token_def split: list.splits)

lemma expect_return_type: "expect t s = Inr s' \<Longrightarrow> return_type s' = return_type s"
  using frame_expect [OF frame_same_return_type, of t s s' s]
    frame_refl [OF frame_same_return_type]
  by (simp add: same_return_type_def)

lemma expect_id_return_type: "expect_id s = Inr (i, s') \<Longrightarrow> return_type s' = return_type s"
  using frame_expect_id [OF frame_same_return_type, of s i s' s]
    frame_refl [OF frame_same_return_type]
  by (simp add: same_return_type_def)

lemma main_body_entry_return_type:
  assumes "main_body_entry n s = Inr sb" "return_type s = TYPE_NONE"
  shows "return_type sb = TYPE_NONE"
  using assms unfolding main_body_entry_def Let_def
  by (auto elim!: then_doE simp: set_class_name_def init_subroutine_codegen_def
      dest!: expect_return_type expect_id_return_type
      dest: funcdefs_loop_return_type)

lemma parse_exit_no_subroutine:
  assumes "token_type s = TOK_EXIT" "return_type s = TYPE_NONE"
    "STARTS_EXPR (token_type (get_token s))"
  shows "parse_exit n s = Inr (get_token s)"
  using assms
  by (simp add: parse_exit_def expect_def then_do_def IS_PROCEDURE_def IS_FUNCTION_def
      IS_CALLABLE_TYPE_def TYPE_NONE_def TYPE_CALLABLE_def)

lemma same_return_typeD:
  "frames_s same_return_type f \<Longrightarrow> f s = Inr s' \<Longrightarrow> return_type s' = return_type s"
  using frames_sD [of same_return_type f s s' s] frame_refl [OF frame_same_return_type]
  by (simp add: same_return_type_def)

lemma same_return_type_eD:
  "frames_e same_return_type f \<Longrightarrow> f s = Inr (t, s') \<Longrightarrow> return_type s' = return_type s"
  using frames_eD [of same_return_type f s t s' s] frame_refl [OF frame_same_return_type]
  by (simp add: same_return_type_def)

lemma TYPE_NONE_no_subroutine: "\<not> IS_PROCEDURE TYPE_NONE \<and> \<not> IS_FUNCTION TYPE_NONE"
  by (simp add: IS_PROCEDURE_def IS_FUNCTION_def IS_CALLABLE_TYPE_def TYPE_NONE_def
      TYPE_CALLABLE_def)

lemma then_do_on:
  assumes "m = m'" "\<And>x. m = Inr x \<Longrightarrow> f x = g x"
  shows "then_do m f = then_do m' g"
  using assms by (cases m) (auto simp: then_do_def)

lemma return_type_gen [simp]:
  "return_type (gen_label l s) = return_type s"
  "return_type (gen_2_label opc l s) = return_type s"
  "return_type (gen_1 opc s) = return_type s"
  "return_type (snd (get_label s)) = return_type s"
  by (simp_all add: gen_defs get_label_def)

lemma check_types_return_type:
  "check_types a b s = Inr s' \<Longrightarrow> return_type s' = return_type s"
  by (auto simp: check_types_def split: if_splits)

lemma parse_expr_return_type:
  "parse_expr n s = Inr (t, s') \<Longrightarrow> return_type s' = return_type s"
  by (rule same_return_type_eD [OF frame_parse_expr [OF frame_same_return_type]])

lemma then_do_on_pair:
  assumes "m = m'" "\<And>a b. m = Inr (a, b) \<Longrightarrow> f a b = g a b"
  shows "then_do m (\<lambda>(a, b). f a b) = then_do m' (\<lambda>(a, b). g a b)"
  using assms by (cases m) (auto simp: then_do_def)

lemma if_agree:
  "(c \<Longrightarrow> a = a') \<Longrightarrow> (\<not> c \<Longrightarrow> b = b') \<Longrightarrow> (if c then a else b) = (if c then a' else b')"
  by simp

lemma none_kept:
  "expect tk s = Inr s' \<Longrightarrow> return_type s = TYPE_NONE \<Longrightarrow> return_type s' = TYPE_NONE"
  "parse_expr n s = Inr (t, s') \<Longrightarrow> return_type s = TYPE_NONE \<Longrightarrow> return_type s' = TYPE_NONE"
  "check_types a b s = Inr s' \<Longrightarrow> return_type s = TYPE_NONE \<Longrightarrow> return_type s' = TYPE_NONE"
  using expect_return_type parse_expr_return_type check_types_return_type by metis+

lemma none_kept_by:
  "frames_s same_return_type f \<Longrightarrow> f s = Inr s' \<Longrightarrow> return_type s = TYPE_NONE
    \<Longrightarrow> return_type s' = TYPE_NONE"
  using same_return_typeD by metis

lemma statements_loop_agree:
  assumes A: "\<And>s. return_type s = TYPE_NONE \<Longrightarrow> ps s = ps' s"
    and K: "frames_s same_return_type ps"
  shows "return_type s = TYPE_NONE \<Longrightarrow> statements_loop ps k s = statements_loop ps' k s"
proof (induction k arbitrary: s)
  case 0
  show ?case by simp
next
  case (Suc k)
  show ?case
    using Suc.prems unfolding statements_loop.simps
    by (intro then_do_on if_agree refl)
      (rule A Suc.IH | erule none_kept none_kept_by [OF K] | simp)+
qed

lemma parse_statements_body_agree:
  assumes A: "\<And>s. return_type s = TYPE_NONE \<Longrightarrow> ps s = ps' s"
    and K: "frames_s same_return_type ps"
    and s: "return_type s = TYPE_NONE"
  shows "parse_statements_body ps n s = parse_statements_body ps' n s"
  using s unfolding parse_statements_body_def
  by (intro then_do_on if_agree refl)
    (rule A statements_loop_agree [of ps ps', OF _ K] | erule none_kept none_kept_by [OF K]
      | simp)+

lemma elsif_loop_agree:
  assumes A: "\<And>s. return_type s = TYPE_NONE \<Longrightarrow> pss s = pss' s"
    and K: "frames_s same_return_type pss"
  shows "return_type s = TYPE_NONE \<Longrightarrow> elsif_loop pss n l2 l3 k s = elsif_loop pss' n l2 l3 k s"
proof (induction k arbitrary: s)
  case 0
  show ?case by simp
next
  case (Suc k)
  show ?case
    using Suc.prems unfolding elsif_loop.simps Let_def
    by (intro then_do_on_pair then_do_on if_agree refl)
      (rule A Suc.IH | erule none_kept none_kept_by [OF K] | simp)+
qed

lemma parse_if_body_agree:
  assumes A: "\<And>s. return_type s = TYPE_NONE \<Longrightarrow> pss s = pss' s"
    and K: "frames_s same_return_type pss"
    and s: "return_type s = TYPE_NONE"
  shows "parse_if_body pss n s = parse_if_body pss' n s"
  using s unfolding parse_if_body_def Let_def get_label_def prod.case
  by (intro then_do_on_pair then_do_on if_agree refl)
    (rule A elsif_loop_agree [of pss pss', OF _ K]
      | erule none_kept none_kept_by [OF K]
          none_kept_by [OF frame_elsif_loop [OF frame_same_return_type K]]
      | simp)+

lemma parse_while_body_agree:
  assumes A: "\<And>s. return_type s = TYPE_NONE \<Longrightarrow> pss s = pss' s"
    and K: "frames_s same_return_type pss"
    and s: "return_type s = TYPE_NONE"
  shows "parse_while_body pss n s = parse_while_body pss' n s"
  using s unfolding parse_while_body_def Let_def get_label_def prod.case
  by (intro then_do_on_pair then_do_on if_agree refl)
    (rule A | erule none_kept none_kept_by [OF K] | simp)+


lemma parse_exit_agree:
  assumes "return_type s = TYPE_NONE"
  shows "parse_exit n s = exit_without_subroutine s"
proof -
  have "\<And>x. expect TOK_EXIT s = Inr x \<Longrightarrow> return_type x = TYPE_NONE"
    using assms by (auto dest: expect_return_type)
  then show ?thesis
    unfolding parse_exit_def exit_without_subroutine_def
    by (intro then_do_on refl) (simp add: TYPE_NONE_no_subroutine)
qed

lemma parse_statement_agree:
  "return_type s = TYPE_NONE \<Longrightarrow> parse_statement n s = main_statement n s"
proof (induction n arbitrary: s)
  case 0
  show ?case by simp
next
  case (Suc n)
  note K = frame_parse_statements_body [OF frame_same_return_type
      frame_parse_statement [OF frame_same_return_type], of n n]
  have B: "\<And>s. return_type s = TYPE_NONE \<Longrightarrow>
      parse_statements_body (parse_statement n) n s = parse_statements_body (main_statement n) n s"
    by (rule parse_statements_body_agree [OF Suc.IH frame_parse_statement [OF frame_same_return_type]])
  have "parse_if_body (parse_statements_body (parse_statement n) n) n s
      = parse_if_body (parse_statements_body (main_statement n) n) n s"
    by (rule parse_if_body_agree [OF B K Suc.prems])
  moreover have "parse_while_body (parse_statements_body (parse_statement n) n) n s
      = parse_while_body (parse_statements_body (main_statement n) n) n s"
    by (rule parse_while_body_agree [OF B K Suc.prems])
  ultimately show ?case
    using parse_exit_agree [OF Suc.prems, of n]
    by (simp add: parse_statement_body_def main_statement_body_def split: TokenType.splits)
qed

lemma parse_statements_agree:
  "return_type s = TYPE_NONE \<Longrightarrow> parse_statements n s = main_statements n s"
  unfolding parse_statements_def main_statements_def
  by (rule parse_statements_body_agree [OF parse_statement_agree
        frame_parse_statement [OF frame_same_return_type]])

lemma parse_body_agree:
  assumes "return_type s = TYPE_NONE"
  shows "parse_body n s = main_body n s"
  using assms unfolding parse_body_def main_body_def
  by (intro then_do_on refl)
    (rule parse_statements_agree
      | erule none_kept none_kept_by [OF frame_vardefs_loop [OF frame_same_return_type]]
      | simp)+

lemma parse_program_agree:
  assumes "return_type s = TYPE_NONE"
  shows "parse_program n s = main_program n s"
  unfolding parse_program_main_body main_program_def Let_def
  by (intro then_do_on refl)
    (rule parse_body_agree main_body_entry_return_type [OF _ assms] | assumption)+

text \<open>
  Claim C10.  \<^verbatim>\<open>TYPE_NONE\<close> is neither a procedure nor a function type.
  \<^verbatim>\<open>parse_program\<close> is \<open>main_body_entry\<close> followed by \<^verbatim>\<open>parse_body\<close>; the state in
  which the main body is entered has the return type \<^verbatim>\<open>TYPE_NONE\<close>, also after
  subroutine definitions, and the variable definitions, statements and expressions of the
  body keep the return type.  With this return type, at an \<^verbatim>\<open>exit\<close> followed by a token
  that starts an expression, \<^verbatim>\<open>parse_exit\<close> returns without an error and changes the
  state by reading one token only: the expression is left in the input and nothing is
  emitted.  This holds for every \<^verbatim>\<open>exit\<close> of the main body, also inside \<^verbatim>\<open>if\<close> and
  \<^verbatim>\<open>while\<close>: from a state with the return type \<^verbatim>\<open>TYPE_NONE\<close> the statement parser, the
  body parser and the whole of \<^verbatim>\<open>parse_program\<close> are equal, result and state, to
  \<open>main_statement\<close>, \<open>main_body\<close> and \<open>main_program\<close>, in which every \<^verbatim>\<open>exit\<close> is
  \<open>exit_without_subroutine\<close>.
\<close>

theorem exit_in_main_body:
  "\<not> IS_PROCEDURE TYPE_NONE \<and> \<not> IS_FUNCTION TYPE_NONE
   \<and> parse_program n s0 =
       then_do (main_body_entry n s0) (\<lambda>s.
       then_do (parse_body n s) (\<lambda>s.
         Inr (close_subroutine_codegen (get_variables_width (syms (gen_1 JVM_RETURN s)))
                (gen_1 JVM_RETURN s))))
   \<and> (return_type s0 = TYPE_NONE \<and> main_body_entry n s0 = Inr sb
        \<longrightarrow> return_type sb = TYPE_NONE)
   \<and> (\<forall>k s1 s2. vardefs_loop n k s1 = Inr s2 \<longrightarrow> return_type s2 = return_type s1)
   \<and> (\<forall>s1 s2. parse_statement n s1 = Inr s2 \<longrightarrow> return_type s2 = return_type s1)
   \<and> (\<forall>s1 s2. parse_statements n s1 = Inr s2 \<longrightarrow> return_type s2 = return_type s1)
   \<and> (\<forall>s1 s2 t. parse_expr n s1 = Inr (t, s2) \<longrightarrow> return_type s2 = return_type s1)
   \<and> (token_type s = TOK_EXIT \<and> return_type s = TYPE_NONE
        \<and> STARTS_EXPR (token_type (get_token s))
        \<longrightarrow> parse_exit n s = Inr (get_token s) \<and> code (get_token s) = code s
            \<and> input (get_token s) = tl (input s))
   \<and> (\<forall>s1. return_type s1 = TYPE_NONE
        \<longrightarrow> parse_statement n s1 = main_statement n s1
            \<and> parse_statements n s1 = main_statements n s1
            \<and> parse_body n s1 = main_body n s1)
   \<and> (return_type s0 = TYPE_NONE \<longrightarrow> parse_program n s0 = main_program n s0)
   \<and> (\<forall>s1. token_type s1 = TOK_EXIT
        \<longrightarrow> exit_without_subroutine s1
            = (if STARTS_EXPR (token_type (get_token s1)) then Inr (get_token s1)
               else Inr (gen_1 JVM_RETURN (get_token s1))))"
proof (intro conjI impI allI)
  show "\<not> IS_PROCEDURE TYPE_NONE" "\<not> IS_FUNCTION TYPE_NONE"
    using TYPE_NONE_no_subroutine by simp_all
  show "parse_program n s0 =
       then_do (main_body_entry n s0) (\<lambda>s.
       then_do (parse_body n s) (\<lambda>s.
         Inr (close_subroutine_codegen (get_variables_width (syms (gen_1 JVM_RETURN s)))
                (gen_1 JVM_RETURN s))))"
    by (rule parse_program_main_body)
next
  assume "return_type s0 = TYPE_NONE \<and> main_body_entry n s0 = Inr sb"
  then show "return_type sb = TYPE_NONE"
    using main_body_entry_return_type by blast
next
  fix k s1 s2 assume "vardefs_loop n k s1 = Inr s2"
  then show "return_type s2 = return_type s1"
    by (rule same_return_typeD [OF frame_vardefs_loop [OF frame_same_return_type]])
next
  fix s1 s2 assume "parse_statement n s1 = Inr s2"
  then show "return_type s2 = return_type s1"
    by (rule same_return_typeD [OF frame_parse_statement [OF frame_same_return_type]])
next
  fix s1 s2 assume "parse_statements n s1 = Inr s2"
  then show "return_type s2 = return_type s1"
    by (rule same_return_typeD [OF frame_parse_statements [OF frame_same_return_type]])
next
  fix s1 s2 t assume "parse_expr n s1 = Inr (t, s2)"
  then show "return_type s2 = return_type s1"
    by (rule same_return_type_eD [OF frame_parse_expr [OF frame_same_return_type]])
next
  assume a: "token_type s = TOK_EXIT \<and> return_type s = TYPE_NONE
        \<and> STARTS_EXPR (token_type (get_token s))"
  then show "parse_exit n s = Inr (get_token s)"
    by (intro parse_exit_no_subroutine) auto
  show "code (get_token s) = code s" by simp
  from a have "token_type (get_token s) \<noteq> TOK_EOF"
    by (auto simp: STARTS_EXPR_def STARTS_FACTOR_def)
  then show "input (get_token s) = tl (input s)"
    by (auto simp: get_token_def token_type_def split: list.splits)
next
  fix s1 :: pstate assume "return_type s1 = TYPE_NONE"
  then show "parse_statement n s1 = main_statement n s1"
    "parse_statements n s1 = main_statements n s1" "parse_body n s1 = main_body n s1"
    by (rule parse_statement_agree parse_statements_agree parse_body_agree)+
next
  assume "return_type s0 = TYPE_NONE"
  then show "parse_program n s0 = main_program n s0" by (rule parse_program_agree)
next
  fix s1 assume "token_type s1 = TOK_EXIT"
  then show "exit_without_subroutine s1
            = (if STARTS_EXPR (token_type (get_token s1)) then Inr (get_token s1)
               else Inr (gen_1 JVM_RETURN (get_token s1)))"
    by (simp add: exit_without_subroutine_def expect_def then_do_def)
qed

theorem exit_in_main_body_witness:
  "token_type ex_exit_state = TOK_EXIT \<and> return_type ex_exit_state = TYPE_NONE
   \<and> outcome (parse_exit 3 ex_exit_state)
       = Inr ([SET_CLASS_NAME ''P'', INIT_SUBROUTINE ''main'' None], TOK_NUM)
   \<and> outcome (compile 3 ex_exit_program) = Inl (ERR_EXPECT TOK_END TOK_NUM)
   \<and> token_type ex_nested_exit_state = TOK_EXIT
   \<and> return_type ex_nested_exit_state = TYPE_NONE
   \<and> outcome (parse_exit 4 ex_nested_exit_state)
       = Inr ([SET_CLASS_NAME ''P'',
               INIT_SUBROUTINE ''f''
                 (Some \<lparr>type = 12, offset = 1, nparams = 0, params = []\<rparr>),
               GEN_2 JVM_LDC 1, GEN_1 JVM_IRETURN, CLOSE_SUBROUTINE 1,
               INIT_SUBROUTINE ''main'' None, GEN_LABEL 0, GEN_2 JVM_LDC 1,
               GEN_2_LABEL JVM_IFEQ 1], TOK_NUM)
   \<and> parse_program 4 (get_token (initial_state ex_nested_exit_program))
       = main_program 4 (get_token (initial_state ex_nested_exit_program))
   \<and> outcome (compile 4 ex_nested_exit_program) = Inl (ERR_EXPECT TOK_END TOK_NUM)"
proof -
  have a: "token_type ex_exit_state = TOK_EXIT" "return_type ex_exit_state = TYPE_NONE"
    "STARTS_EXPR (token_type (get_token ex_exit_state))"
    by code_simp+
  have b: "outcome (Inr (get_token ex_exit_state))
       = Inr ([SET_CLASS_NAME ''P'', INIT_SUBROUTINE ''main'' None], TOK_NUM)"
    by code_simp
  have c: "outcome (compile 3 ex_exit_program) = Inl (ERR_EXPECT TOK_END TOK_NUM)"
    by code_simp
  have d: "token_type ex_nested_exit_state = TOK_EXIT"
    "return_type ex_nested_exit_state = TYPE_NONE"
    "STARTS_EXPR (token_type (get_token ex_nested_exit_state))"
    by code_simp+
  have e: "outcome (Inr (get_token ex_nested_exit_state))
       = Inr ([SET_CLASS_NAME ''P'',
               INIT_SUBROUTINE ''f''
                 (Some \<lparr>type = 12, offset = 1, nparams = 0, params = []\<rparr>),
               GEN_2 JVM_LDC 1, GEN_1 JVM_IRETURN, CLOSE_SUBROUTINE 1,
               INIT_SUBROUTINE ''main'' None, GEN_LABEL 0, GEN_2 JVM_LDC 1,
               GEN_2_LABEL JVM_IFEQ 1], TOK_NUM)"
    by code_simp
  have f: "return_type (get_token (initial_state ex_nested_exit_program)) = TYPE_NONE"
    by code_simp
  have g: "outcome (main_program 4 (get_token (initial_state ex_nested_exit_program)))
       = Inl (ERR_EXPECT TOK_END TOK_NUM)"
    by code_simp
  have h: "parse_exit 3 ex_exit_state = Inr (get_token ex_exit_state)"
    using exit_in_main_body [where n = 3 and s = ex_exit_state] a by blast
  have i: "parse_exit 4 ex_nested_exit_state = Inr (get_token ex_nested_exit_state)"
    using exit_in_main_body [where n = 4 and s = ex_nested_exit_state] d by blast
  have j: "parse_program 4 (get_token (initial_state ex_nested_exit_program))
       = main_program 4 (get_token (initial_state ex_nested_exit_program))"
    using exit_in_main_body [where n = 4
        and ?s0.0 = "get_token (initial_state ex_nested_exit_program)"] f
    by blast
  show ?thesis using a b c d e g h i j by (simp add: compile_def)
qed


section \<open>Slots after a subroutine\<close>

text \<open>
  Claim C7, at a failing input.  In the subroutine \<open>f\<close> the parameter \<open>a\<close> has
  offset 1 and the width is 2.  \<^verbatim>\<open>close_subroutine\<close> reactivates the global table and
  leaves \<^verbatim>\<open>curr_offset\<close> at 2, so \<open>b\<close>, the first variable inserted into the global
  scope, has offset 2, and the width is 3 after one variable.  In the compiled program the
  assignment to \<open>b\<close> stores into slot 2 and the main method is closed with width 3.
\<close>

theorem slots_after_subroutine:
  "curr_offset (init_symbol_table symtab0) = 1
   \<and> active_scope ex_sub ''a'' = Some (ex_var\<lparr>offset := 1\<rparr>) \<and> get_variables_width ex_sub = 2
   \<and> close_subroutine ex_sub = Inr ex_closed \<and> table ex_closed = Some 0
   \<and> curr_offset ex_closed = 2
   \<and> insert_name ex_closed ''b'' ex_var = Inr (True, ex_main)
   \<and> active_scope ex_main ''b'' = Some (ex_var\<lparr>offset := 2\<rparr>)
   \<and> get_variables_width ex_main = 3
   \<and> outcome (compile 4 ex_slot_program)
       = Inr ([SET_CLASS_NAME ''P'',
               INIT_SUBROUTINE ''f'' (Some (ex_var\<lparr>offset := 1\<rparr>)), CLOSE_SUBROUTINE 2,
               INIT_SUBROUTINE ''main'' None, GEN_2 JVM_LDC 1, GEN_2 JVM_ISTORE 2,
               GEN_1 JVM_RETURN, CLOSE_SUBROUTINE 3], TOK_EOF)"
  by code_simp

end
